theory Spec2Isabelle
  imports Complex_Main
begin

section \<open>Numbers and strings of the style-value parsers (scrape.js)\<close>

text \<open>
  A JavaScript number is modelled as an exact real or \<open>NaN\<close>: there is no rounding and no
  overflow to an infinity. \<open>NaN\<close> is kept as a value of its own because the code's control
  flow depends on it (it is falsy, and \<open>parseFloat\<close> returns it on a token without a digit).
  A string is a list of characters; only code units below 256 are represented.
\<close>

datatype jsnum = NaN | Num real

fun truthyNum :: "jsnum \<Rightarrow> bool" where
  "truthyNum NaN = False"
| "truthyNum (Num x) = (x \<noteq> 0)"

text \<open>\<open>x / y\<close>. Every divisor in the modelled code is a nonzero constant or count.\<close>

fun jdiv :: "jsnum \<Rightarrow> jsnum \<Rightarrow> jsnum" where
  "jdiv (Num x) (Num y) = Num (x / y)"
| "jdiv _ _ = NaN"

fun jmul :: "jsnum \<Rightarrow> jsnum \<Rightarrow> jsnum" where
  "jmul (Num x) (Num y) = Num (x * y)"
| "jmul _ _ = NaN"

fun jadd :: "jsnum \<Rightarrow> jsnum \<Rightarrow> jsnum" where
  "jadd (Num x) (Num y) = Num (x + y)"
| "jadd _ _ = NaN"

fun jsub :: "jsnum \<Rightarrow> jsnum \<Rightarrow> jsnum" where
  "jsub (Num x) (Num y) = Num (x - y)"
| "jsub _ _ = NaN"

fun jcos :: "jsnum \<Rightarrow> jsnum" where
  "jcos (Num x) = Num (cos x)"
| "jcos NaN = NaN"

fun jsin :: "jsnum \<Rightarrow> jsnum" where
  "jsin (Num x) = Num (sin x)"
| "jsin NaN = NaN"

text \<open>The classes \<open>\s\<close>, \<open>\d\<close> and \<open>[\d.]\<close> of the regular expressions; \<open>trim\<close>.\<close>

definition isSpace :: "char \<Rightarrow> bool" where
  "isSpace c = (c \<in> set [CHR 0x09, CHR 0x0A, CHR 0x0B, CHR 0x0C, CHR 0x0D, CHR 0x20, CHR 0xA0])"

definition isDigit :: "char \<Rightarrow> bool" where
  "isDigit c = (c \<in> set ''0123456789'')"

definition isNumCh :: "char \<Rightarrow> bool" where
  "isNumCh c = (isDigit c \<or> c = CHR ''.'')"

definition skipWs :: "string \<Rightarrow> string" where
  "skipWs s = dropWhile isSpace s"

definition trim :: "string \<Rightarrow> string" where
  "trim s = rev (dropWhile isSpace (rev (dropWhile isSpace s)))"

definition startsWith :: "string \<Rightarrow> string \<Rightarrow> bool" where
  "startsWith s p = (take (length p) s = p)"

text \<open>A literal at the head of the input: the rest of the input when it matches.\<close>

definition lit :: "string \<Rightarrow> string \<Rightarrow> string option" where
  "lit p s = (if startsWith s p then Some (drop (length p) s) else None)"

text \<open>
  \<open>[\d.]+\<close> at the head of the input, greedy: the token and the rest. In every expression
  of this program the token is followed by a character outside the class (\<open>,\<close>, \<open>)\<close>,
  \<open>%\<close>, \<open>p\<close>, \<open>d\<close> or white space), so a shorter token can never make the rest match and
  the longest one is the only candidate of the backtracking matcher.
\<close>

definition numTok :: "string \<Rightarrow> (string \<times> string) option" where
  "numTok s = (if takeWhile isNumCh s = [] then None
               else Some (takeWhile isNumCh s, dropWhile isNumCh s))"

subsection \<open>parseFloat\<close>

text \<open>
  The platform's \<open>parseFloat\<close>: leading white space, an optional sign, digits with an
  optional fraction, an optional exponent; whatever follows is ignored; \<open>NaN\<close> when
  no digit is found. The literal \<open>Infinity\<close> is outside the number model; the tokens this
  program passes are made of digits, dots, \<open>-\<close>, \<open>p\<close> and \<open>x\<close> only.
\<close>

definition digitVal :: "char \<Rightarrow> nat" where
  "digitVal c = of_char c - 48"

definition digitsVal :: "string \<Rightarrow> nat" where
  "digitsVal ds = foldl (\<lambda>n c. 10 * n + digitVal c) 0 ds"

definition signOf :: "string \<Rightarrow> real \<times> string" where
  "signOf s = (case s of
      [] \<Rightarrow> (1, [])
    | c # t \<Rightarrow> if c = CHR ''-'' then (-1, t) else if c = CHR ''+'' then (1, t) else (1, s))"

definition exponentOf :: "string \<Rightarrow> real" where
  "exponentOf s = (case s of
      [] \<Rightarrow> 1
    | c # t \<Rightarrow>
        if c = CHR ''e'' \<or> c = CHR ''E'' then
          (let (sg, u) = signOf t; ed = takeWhile isDigit u
           in if ed = [] then 1
              else if sg < 0 then 1 / 10 ^ digitsVal ed else 10 ^ digitsVal ed)
        else 1)"

definition parseFloat :: "string \<Rightarrow> jsnum" where
  "parseFloat s =
     (let (sg, u) = signOf (skipWs s);
          ip = takeWhile isDigit u;
          v = dropWhile isDigit u;
          hasDot = (v \<noteq> [] \<and> hd v = CHR ''.'');
          fp = (if hasDot then takeWhile isDigit (tl v) else []);
          w = (if hasDot then dropWhile isDigit (tl v) else v)
      in if ip = [] \<and> fp = [] then NaN
         else Num (sg * (real (digitsVal ip) + real (digitsVal fp) / 10 ^ length fp)
                   * exponentOf w))"

subsection \<open>parseColor\<close>

record rgba =
  col_r :: jsnum
  col_g :: jsnum
  col_b :: jsnum
  col_a :: jsnum

text \<open>
  \<open>/rgba?\(\s*([\d.]+),\s*([\d.]+),\s*([\d.]+)(?:,\s*([\d.]+))?\s*\)/\<close> tried at the head
  of the input. \<open>rgbaTail\<close> is the part after the third number: the optional group is tried
  first, and skipped when the rest does not match with it. \<open>rgbaAt\<close> tries the optional
  \<open>a\<close> first in the same way. The result is the four capture groups.
\<close>

definition rgbaTail :: "string \<Rightarrow> string option option" where
  "rgbaTail s =
     (case (case lit '','' s of
              None \<Rightarrow> None
            | Some t \<Rightarrow>
                (case numTok (skipWs t) of
                   None \<Rightarrow> None
                 | Some (m4, u) \<Rightarrow>
                     (case lit '')'' (skipWs u) of None \<Rightarrow> None | Some _ \<Rightarrow> Some (Some m4)))) of
        Some res \<Rightarrow> Some res
      | None \<Rightarrow> (case lit '')'' (skipWs s) of None \<Rightarrow> None | Some _ \<Rightarrow> Some None))"

definition rgbaBody :: "string \<Rightarrow> (string \<times> string \<times> string \<times> string option) option" where
  "rgbaBody s =
     (case lit ''('' s of
        None \<Rightarrow> None
      | Some s0 \<Rightarrow>
     (case numTok (skipWs s0) of
        None \<Rightarrow> None
      | Some (m1, s1) \<Rightarrow>
     (case lit '','' s1 of
        None \<Rightarrow> None
      | Some s2 \<Rightarrow>
     (case numTok (skipWs s2) of
        None \<Rightarrow> None
      | Some (m2, s3) \<Rightarrow>
     (case lit '','' s3 of
        None \<Rightarrow> None
      | Some s4 \<Rightarrow>
     (case numTok (skipWs s4) of
        None \<Rightarrow> None
      | Some (m3, s5) \<Rightarrow>
     (case rgbaTail s5 of
        None \<Rightarrow> None
      | Some m4 \<Rightarrow> Some (m1, m2, m3, m4))))))))"

definition rgbaAt :: "string \<Rightarrow> (string \<times> string \<times> string \<times> string option) option" where
  "rgbaAt s =
     (case lit ''rgb'' s of
        None \<Rightarrow> None
      | Some s1 \<Rightarrow>
          (case (case lit ''a'' s1 of None \<Rightarrow> None | Some s2 \<Rightarrow> rgbaBody s2) of
             Some m \<Rightarrow> Some m
           | None \<Rightarrow> rgbaBody s1))"

text \<open>\<open>String.prototype.match\<close> without the \<open>g\<close> flag: the leftmost position that matches.\<close>

fun searchRgba :: "string \<Rightarrow> (string \<times> string \<times> string \<times> string option) option" where
  "searchRgba [] = rgbaAt []"
| "searchRgba (c # cs) =
     (case rgbaAt (c # cs) of Some m \<Rightarrow> Some m | None \<Rightarrow> searchRgba cs)"

text \<open>
  \<open>parseColor\<close>. The argument is a computed-style string; \<open>!colorStr\<close> holds of the empty
  string (and of a missing value, which the string model identifies with it).
\<close>

definition parseColor :: "string \<Rightarrow> rgba option" where
  "parseColor colorStr =
     (if colorStr = [] \<or> colorStr = ''transparent'' \<or> colorStr = ''rgba(0, 0, 0, 0)'' then None
      else (case searchRgba colorStr of
              Some (m1, m2, m3, m4) \<Rightarrow>
                Some \<lparr> col_r = jdiv (parseFloat m1) (Num 255),
                       col_g = jdiv (parseFloat m2) (Num 255),
                       col_b = jdiv (parseFloat m3) (Num 255),
                       col_a = (case m4 of Some t \<Rightarrow> parseFloat t | None \<Rightarrow> Num 1) \<rparr>
            | None \<Rightarrow> None))"

subsection \<open>Gradients\<close>

text \<open>\<open>splitGradientParts\<close>: the loop over the characters, then the last part if not empty.\<close>

fun splitLoop :: "string \<Rightarrow> int \<Rightarrow> string \<Rightarrow> string list \<Rightarrow> string list \<times> string" where
  "splitLoop [] depth current parts = (parts, current)"
| "splitLoop (ch # rest) depth current parts =
     (let depth' = (if ch = CHR ''('' then depth + 1
                    else if ch = CHR '')'' then depth - 1 else depth)
      in if ch = CHR '','' \<and> depth' = 0
         then splitLoop rest depth' [] (parts @ [current])
         else splitLoop rest depth' (current @ [ch]) parts)"

definition splitGradientParts :: "string \<Rightarrow> string list" where
  "splitGradientParts str =
     (let (parts, current) = splitLoop str 0 [] []
      in if current \<noteq> [] then parts @ [current] else parts)"

text \<open>
  \<open>directionToAngle\<close>: \<open>map[dir] || 180\<close>. The table is an object literal; the names it
  inherits from \<open>Object.prototype\<close> hold no space, and the only caller passes a string that
  starts with \<open>to\<close> and a space, so a lookup outside the table is \<open>undefined\<close>.
\<close>

definition directionMap :: "(string \<times> jsnum) list" where
  "directionMap =
     [(''to top'', Num 0), (''to right'', Num 90), (''to bottom'', Num 180), (''to left'', Num 270),
      (''to top right'', Num 45), (''to top left'', Num 315),
      (''to bottom right'', Num 135), (''to bottom left'', Num 225)]"

definition directionToAngle :: "string \<Rightarrow> jsnum" where
  "directionToAngle dir =
     (case map_of directionMap dir of
        Some v \<Rightarrow> if truthyNum v then v else Num 180
      | None \<Rightarrow> Num 180)"

subsection \<open>Color stops and gradients\<close>

text \<open>
  \<open>/([\d.]+)%\s*$/\<close>: at a position, then the leftmost position that matches, with the text
  before it. The match runs to the end of the input, so replacing it by the empty string
  leaves exactly that text.
\<close>

definition percentAt :: "string \<Rightarrow> string option" where
  "percentAt s =
     (case numTok s of
        None \<Rightarrow> None
      | Some (tok, s1) \<Rightarrow>
          (case lit ''%'' s1 of
             None \<Rightarrow> None
           | Some s2 \<Rightarrow> if skipWs s2 = [] then Some tok else None))"

fun searchPercent :: "string \<Rightarrow> string \<Rightarrow> (string \<times> string) option" where
  "searchPercent pre [] = None"
| "searchPercent pre (c # cs) =
     (case percentAt (c # cs) of
        Some tok \<Rightarrow> Some (pre, tok)
      | None \<Rightarrow> searchPercent (pre @ [c]) cs)"

definition parseColorStop :: "string \<Rightarrow> nat \<Rightarrow> nat \<Rightarrow> rgba option \<times> jsnum" where
  "parseColorStop str index totl =
     (let position = (if totl > 1 then Num (real index / real (totl - 1)) else Num 0)
      in case searchPercent [] str of
           Some (pre, tok) \<Rightarrow> (parseColor (trim pre), jdiv (parseFloat tok) (Num 100))
         | None \<Rightarrow> (parseColor str, position))"

record stop =
  stop_color :: rgba
  stop_position :: jsnum

record point =
  pt_x :: jsnum
  pt_y :: jsnum

datatype paintType = GRADIENT_LINEAR | GRADIENT_RADIAL

record gradient =
  grad_type :: paintType
  gradientStops :: "stop list"
  gradientHandlePositions :: "point list"

text \<open>
  The loop over \<open>colorParts\<close>, the same in \<open>parseLinearGradient\<close> and
  \<open>parseRadialGradient\<close>: a stop is pushed when its color parsed.
\<close>

fun collectStops :: "string list \<Rightarrow> nat \<Rightarrow> nat \<Rightarrow> stop list \<Rightarrow> stop list" where
  "collectStops [] i totl stops = stops"
| "collectStops (p # ps) i totl stops =
     (case parseColorStop (trim p) i totl of
        (Some color, position) \<Rightarrow>
          collectStops ps (i + 1) totl
            (stops @ [\<lparr> stop_color = \<lparr> col_r = col_r color, col_g = col_g color,
                                        col_b = col_b color, col_a = col_a color \<rparr>,
                       stop_position = position \<rparr>])
      | (None, position) \<Rightarrow> collectStops ps (i + 1) totl stops)"

text \<open>\<open>/^([\d.]+)deg$/\<close> on the trimmed first part.\<close>

definition angleMatch :: "string \<Rightarrow> string option" where
  "angleMatch s =
     (case numTok s of
        None \<Rightarrow> None
      | Some (tok, s1) \<Rightarrow> if s1 = ''deg'' then Some tok else None)"

definition parseLinearGradient :: "string \<Rightarrow> gradient option" where
  "parseLinearGradient content =
     (let parts = splitGradientParts content
      in if length parts < 2 then None
         else
           (let first = trim (hd parts);
                (angleDeg, colorStopStart) =
                   (case angleMatch first of
                      Some tok \<Rightarrow> (parseFloat tok, 1::nat)
                    | None \<Rightarrow>
                        if startsWith first ''to '' then (directionToAngle first, 1)
                        else (Num 180, 0));
                colorParts = drop colorStopStart parts;
                stops = collectStops colorParts 0 (length colorParts) []
            in if length stops < 2 then None
               else
                 (let angleRad = jmul (jsub angleDeg (Num 90)) (Num (pi / 180));
                      cs = jcos angleRad;
                      sn = jsin angleRad
                  in Some \<lparr> grad_type = GRADIENT_LINEAR,
                              gradientStops = stops,
                              gradientHandlePositions =
                                [\<lparr> pt_x = jsub (Num 0.5) (jmul cs (Num 0.5)),
                                   pt_y = jsub (Num 0.5) (jmul sn (Num 0.5)) \<rparr>,
                                 \<lparr> pt_x = jadd (Num 0.5) (jmul cs (Num 0.5)),
                                   pt_y = jadd (Num 0.5) (jmul sn (Num 0.5)) \<rparr>,
                                 \<lparr> pt_x = jsub (Num 0.5) (jmul sn (Num 0.5)),
                                   pt_y = jadd (Num 0.5) (jmul cs (Num 0.5)) \<rparr>] \<rparr>)))"

text \<open>\<open>/^(rgb|hsl|#)/i\<close>: the letters may be of either case.\<close>

definition lowerCh :: "char \<Rightarrow> char" where
  "lowerCh c = (if c = CHR ''R'' then CHR ''r'' else if c = CHR ''G'' then CHR ''g''
                else if c = CHR ''B'' then CHR ''b'' else if c = CHR ''H'' then CHR ''h''
                else if c = CHR ''S'' then CHR ''s'' else if c = CHR ''L'' then CHR ''l''
                else c)"

definition looksLikeColor :: "string \<Rightarrow> bool" where
  "looksLikeColor s =
     (startsWith (map lowerCh s) ''rgb'' \<or> startsWith (map lowerCh s) ''hsl''
      \<or> startsWith s ''#'')"

definition parseRadialGradient :: "string \<Rightarrow> gradient option" where
  "parseRadialGradient content =
     (let parts = splitGradientParts content
      in if length parts < 2 then None
         else
           (let colorStopStart =
                  (if hd parts \<noteq> [] \<and> \<not> looksLikeColor (trim (hd parts)) then 1 else 0::nat);
                colorParts = drop colorStopStart parts;
                stops = collectStops colorParts 0 (length colorParts) []
            in if length stops < 2 then None
               else Some \<lparr> grad_type = GRADIENT_RADIAL,
                            gradientStops = stops,
                            gradientHandlePositions =
                              [\<lparr> pt_x = Num 0.5, pt_y = Num 0.5 \<rparr>,
                               \<lparr> pt_x = Num 1, pt_y = Num 0.5 \<rparr>,
                               \<lparr> pt_x = Num 0.5, pt_y = Num 1 \<rparr>] \<rparr>))"

text \<open>
  \<open>/linear-gradient\(([^)]+)\)/\<close> and \<open>/radial-gradient\(([^)]+)\)/\<close>: the name with its
  opening parenthesis, one or more characters other than \<open>)\<close>, then \<open>)\<close>. The capture
  group is the text up to the first closing parenthesis.
\<close>

definition notClose :: "char \<Rightarrow> bool" where
  "notClose c = (c \<noteq> CHR '')'')"

definition fnAt :: "string \<Rightarrow> string \<Rightarrow> string option" where
  "fnAt name s =
     (case lit name s of
        None \<Rightarrow> None
      | Some s1 \<Rightarrow>
          if takeWhile notClose s1 \<noteq> [] \<and> dropWhile notClose s1 \<noteq> []
          then Some (takeWhile notClose s1) else None)"

fun searchFn :: "string \<Rightarrow> string \<Rightarrow> string option" where
  "searchFn name [] = fnAt name []"
| "searchFn name (c # cs) =
     (case fnAt name (c # cs) of Some m \<Rightarrow> Some m | None \<Rightarrow> searchFn name cs)"

definition parseGradient :: "string \<Rightarrow> gradient option" where
  "parseGradient bgImage =
     (if bgImage = [] \<or> bgImage = ''none'' then None
      else (case searchFn ''linear-gradient('' bgImage of
              Some content \<Rightarrow> parseLinearGradient content
            | None \<Rightarrow>
                (case searchFn ''radial-gradient('' bgImage of
                   Some content \<Rightarrow> parseRadialGradient content
                 | None \<Rightarrow> None)))"

subsection \<open>parseBoxShadow\<close>

datatype shadowType = DROP_SHADOW | INNER_SHADOW

record effect =
  eff_type :: shadowType
  eff_color :: rgba
  eff_offset :: point
  eff_radius :: jsnum
  eff_spread :: jsnum
  eff_visible :: bool

text \<open>
  \<open>/rgba?\([^)]+\)/\<close> at a position and leftmost in the input: the matched text, which is
  what \<open>rgbaMatch[0]\<close> holds.
\<close>

definition parenAt :: "string \<Rightarrow> string option" where
  "parenAt s =
     (case lit ''('' s of
        None \<Rightarrow> None
      | Some s1 \<Rightarrow>
          if takeWhile notClose s1 \<noteq> [] \<and> dropWhile notClose s1 \<noteq> []
          then Some (''('' @ takeWhile notClose s1 @ '')'') else None)"

definition rgbFnAt :: "string \<Rightarrow> string option" where
  "rgbFnAt s =
     (case lit ''rgb'' s of
        None \<Rightarrow> None
      | Some s1 \<Rightarrow>
          (case (case lit ''a'' s1 of
                   None \<Rightarrow> None
                 | Some s2 \<Rightarrow> map_option (\<lambda>m. ''rgba'' @ m) (parenAt s2)) of
             Some m \<Rightarrow> Some m
           | None \<Rightarrow> map_option (\<lambda>m. ''rgb'' @ m) (parenAt s1)))"

fun searchRgbFn :: "string \<Rightarrow> string option" where
  "searchRgbFn [] = rgbFnAt []"
| "searchRgbFn (c # cs) =
     (case rgbFnAt (c # cs) of Some m \<Rightarrow> Some m | None \<Rightarrow> searchRgbFn cs)"

text \<open>\<open>s.replace(m, '')\<close> with a string \<open>m\<close>: the first occurrence of \<open>m\<close> is removed.\<close>

fun removeFirst :: "string \<Rightarrow> string \<Rightarrow> string" where
  "removeFirst m [] = []"
| "removeFirst m (c # cs) =
     (if startsWith (c # cs) m then drop (length m) (c # cs) else c # removeFirst m cs)"

text \<open>
  \<open>/-?[\d.]+px/g\<close>: one match at a position (the matched text and the rest of the input),
  and all the matches from left to right, each search starting where the last match ended.
\<close>

definition pxBody :: "string \<Rightarrow> (string \<times> string) option" where
  "pxBody s =
     (case numTok s of
        None \<Rightarrow> None
      | Some (tok, s1) \<Rightarrow>
          (case lit ''px'' s1 of None \<Rightarrow> None | Some s2 \<Rightarrow> Some (tok @ ''px'', s2)))"

definition pxAt :: "string \<Rightarrow> (string \<times> string) option" where
  "pxAt s =
     (case (case lit ''-'' s of
              None \<Rightarrow> None
            | Some t \<Rightarrow> map_option (\<lambda>(m, rest). (''-'' @ m, rest)) (pxBody t)) of
        Some res \<Rightarrow> Some res
      | None \<Rightarrow> pxBody s)"

lemma lit_length: "lit p s = Some t \<Longrightarrow> length t = length s - length p"
  by (auto simp: lit_def split: if_splits)

lemma lit_nonempty_shorter: "lit p s = Some t \<Longrightarrow> p \<noteq> [] \<Longrightarrow> length t < length s"
  by (cases s) (auto simp: lit_def startsWith_def split: if_splits)

lemma numTok_shorter: "numTok s = Some (tok, t) \<Longrightarrow> length t < length s"
proof -
  assume h: "numTok s = Some (tok, t)"
  then have ne: "takeWhile isNumCh s \<noteq> []" and t: "t = dropWhile isNumCh s"
    by (auto simp: numTok_def split: if_splits)
  have "length (takeWhile isNumCh s) + length (dropWhile isNumCh s) = length s"
    by (metis length_append takeWhile_dropWhile_id)
  with ne t show ?thesis by (cases "takeWhile isNumCh s") auto
qed

lemma pxBody_shorter: "pxBody s = Some (m, t) \<Longrightarrow> length t < length s"
  by (auto simp: pxBody_def split: option.splits dest!: numTok_shorter lit_length)

lemma pxAt_shorter: "pxAt s = Some (m, t) \<Longrightarrow> length t < length s"
  by (auto simp: pxAt_def split: option.splits dest!: pxBody_shorter lit_length)

function pxTokens :: "string \<Rightarrow> string list" where
  "pxTokens s =
     (case pxAt s of
        Some (m, rest) \<Rightarrow> m # pxTokens rest
      | None \<Rightarrow> (case s of [] \<Rightarrow> [] | c # cs \<Rightarrow> pxTokens cs))"
  by pat_completeness auto
termination
  by (relation "measure length") (auto dest: pxAt_shorter)

declare pxTokens.simps [simp del]

text \<open>
  One turn of the loop of \<open>parseBoxShadow\<close> over the clauses, in two halves. The first
  reads the clause: \<open>isInner\<close>, \<open>color\<close> and \<open>nums\<close> (the empty list is the \<open>null\<close>
  of a match without result). The second is \<open>continue\<close> (\<open>None\<close>) or the effect pushed.
  \<open>nums[2]\<close> and \<open>nums[3]\<close> are matched texts, never empty, so they are truthy exactly
  when they exist.
\<close>

definition clauseParts :: "string \<Rightarrow> bool \<times> rgba option \<times> string list" where
  "clauseParts shadow =
     (let trimmed = trim shadow;
          isInner = startsWith trimmed ''inset'';
          cleaned = (if startsWith trimmed ''inset'' then skipWs (drop 5 trimmed) else trimmed);
          rgbaMatch = searchRgbFn cleaned;
          color = (case rgbaMatch of Some m \<Rightarrow> parseColor m | None \<Rightarrow> None);
          rest = (case rgbaMatch of Some m \<Rightarrow> trim (removeFirst m cleaned) | None \<Rightarrow> cleaned)
      in (isInner, color, pxTokens rest))"

definition clauseNums :: "string \<Rightarrow> string list" where
  "clauseNums shadow = snd (snd (clauseParts shadow))"

definition shadowClause :: "string \<Rightarrow> effect option" where
  "shadowClause shadow =
     (case clauseParts shadow of (isInner, color0, nums) \<Rightarrow>
        if length nums < 2 then None
        else
          (let offsetX = parseFloat (nums ! 0);
               offsetY = parseFloat (nums ! 1);
               blur = (if 2 < length nums then parseFloat (nums ! 2) else Num 0);
               spread = (if 3 < length nums then parseFloat (nums ! 3) else Num 0);
               color = (case color0 of
                          Some c \<Rightarrow> c
                        | None \<Rightarrow> \<lparr> col_r = Num 0, col_g = Num 0, col_b = Num 0,
                                    col_a = Num 0.25 \<rparr>)
           in Some \<lparr> eff_type = (if isInner then INNER_SHADOW else DROP_SHADOW),
                       eff_color = \<lparr> col_r = col_r color, col_g = col_g color,
                                     col_b = col_b color, col_a = col_a color \<rparr>,
                       eff_offset = \<lparr> pt_x = offsetX, pt_y = offsetY \<rparr>,
                       eff_radius = blur,
                       eff_spread = spread,
                       eff_visible = True \<rparr>))"

fun shadowLoop :: "string list \<Rightarrow> effect list \<Rightarrow> effect list" where
  "shadowLoop [] effects = effects"
| "shadowLoop (shadow # shadows) effects =
     (case shadowClause shadow of
        None \<Rightarrow> shadowLoop shadows effects
      | Some e \<Rightarrow> shadowLoop shadows (effects @ [e]))"

definition parseBoxShadow :: "string \<Rightarrow> effect list" where
  "parseBoxShadow shadowStr =
     (if shadowStr = [] \<or> shadowStr = ''none'' then []
      else shadowLoop (splitGradientParts shadowStr) [])"

subsection \<open>Notions used to state the properties of the parsers\<close>

text \<open>
  The shape of an \<open>rgb()\<close>/\<open>rgba()\<close> functional notation with comma-separated
  components: white space is allowed after the opening parenthesis, after each comma and
  before the closing parenthesis; the alpha component, with the white space before it, is
  optional.
\<close>

definition allSpace :: "string \<Rightarrow> bool" where
  "allSpace w = (\<forall>c \<in> set w. isSpace c)"

definition isNumTok :: "string \<Rightarrow> bool" where
  "isNumTok n = (n \<noteq> [] \<and> (\<forall>c \<in> set n. isNumCh c))"

definition rgbNotation ::
  "bool \<Rightarrow> string \<Rightarrow> string \<Rightarrow> string \<Rightarrow> string \<Rightarrow> string \<Rightarrow> string \<Rightarrow>
   (string \<times> string) option \<Rightarrow> string \<Rightarrow> string" where
  "rgbNotation withA w0 n1 w1 n2 w2 n3 alpha w4 =
     (if withA then ''rgba('' else ''rgb('') @ w0 @ n1 @ '','' @ w1 @ n2 @ '','' @ w2 @ n3 @
     (case alpha of None \<Rightarrow> [] | Some (w3, n4) \<Rightarrow> '','' @ w3 @ n4) @ w4 @ '')''"





section \<open>Values of the Materializer (the plugin)\<close>

text \<open>
  The plugin receives the IR document as a parsed JSON value, so its input is modelled as
  a dynamically typed value: a field can be absent (\<open>undefined\<close>), \<open>null\<close>, or of any
  type. An object is an association list read with \<open>map_of\<close>.
\<close>

datatype jv =
    Undefined
  | Null
  | Bool bool
  | Number jsnum
  | Str string
  | Arr "jv list"
  | Obj "(string \<times> jv) list"

definition nullish :: "jv \<Rightarrow> bool" where
  "nullish v = (v = Undefined \<or> v = Null)"

fun truthy :: "jv \<Rightarrow> bool" where
  "truthy Undefined = False"
| "truthy Null = False"
| "truthy (Bool b) = b"
| "truthy (Number n) = truthyNum n"
| "truthy (Str s) = (s \<noteq> [])"
| "truthy (Arr xs) = True"
| "truthy (Obj kvs) = True"

text \<open>\<open>a || b\<close>.\<close>

definition jsOr :: "jv \<Rightarrow> jv \<Rightarrow> jv" where
  "jsOr a b = (if truthy a then a else b)"

text \<open>
  \<open>v.k\<close> for a receiver that is neither \<open>null\<close> nor \<open>undefined\<close> (on those the access
  throws; every use below is behind the check the source makes, or behind an explicit
  \<open>nullish\<close> test that models the throw). Of the inherited properties only \<open>length\<close> of
  arrays and strings is read by this program.
\<close>

fun getProp :: "jv \<Rightarrow> string \<Rightarrow> jv" where
  "getProp (Obj kvs) k = (case map_of kvs k of Some v \<Rightarrow> v | None \<Rightarrow> Undefined)"
| "getProp (Arr xs) k = (if k = ''length'' then Number (Num (real (length xs))) else Undefined)"
| "getProp (Str s) k = (if k = ''length'' then Number (Num (real (length s))) else Undefined)"
| "getProp _ k = Undefined"

text \<open>\<open>v[i]\<close> for a small constant index, same receivers.\<close>

definition indexKey :: "nat \<Rightarrow> string" where
  "indexKey i = (if i = 0 then ''0'' else if i = 1 then ''1'' else ''2'')"

fun idx :: "jv \<Rightarrow> nat \<Rightarrow> jv" where
  "idx (Arr xs) i = (if i < length xs then xs ! i else Undefined)"
| "idx (Str s) i = (if i < length s then Str [s ! i] else Undefined)"
| "idx (Obj kvs) i = (case map_of kvs (indexKey i) of Some v \<Rightarrow> v | None \<Rightarrow> Undefined)"
| "idx _ i = Undefined"

text \<open>
  The host: what the design tool and the JavaScript engine decide. \<open>toNum\<close> is the
  conversion to a number of a string, an array or an object (the other conversions are
  written out in \<open>toNumber\<close>); the theorems hold whatever it returns. A font loads or not,
  markup parses or not, image bytes decode or not, an image URL resolves or not.
  Assigning a property of a scene node always succeeds: the validation the host applies
  to assigned values is not modelled.
\<close>

record host =
  toNum :: "jv \<Rightarrow> jsnum"
  loadFont :: "jv \<Rightarrow> bool"
  svgParses :: "jv \<Rightarrow> bool"
  imageDecodes :: "jv \<Rightarrow> bool"
  imageResolves :: "jv \<Rightarrow> bool"
  imageHashOf :: "jv \<Rightarrow> jv"
  viewportCenter :: "jsnum \<times> jsnum"

fun toNumber :: "host \<Rightarrow> jv \<Rightarrow> jsnum" where
  "toNumber h Undefined = NaN"
| "toNumber h Null = Num 0"
| "toNumber h (Bool b) = Num (if b then 1 else 0)"
| "toNumber h (Number n) = n"
| "toNumber h v = toNum h v"

fun nmax :: "jsnum \<Rightarrow> jsnum \<Rightarrow> jsnum" where
  "nmax (Num x) (Num y) = Num (max x y)"
| "nmax _ _ = NaN"

fun nmin :: "jsnum \<Rightarrow> jsnum \<Rightarrow> jsnum" where
  "nmin (Num x) (Num y) = Num (min x y)"
| "nmin _ _ = NaN"

definition mathMax :: "host \<Rightarrow> jv \<Rightarrow> jv \<Rightarrow> jv" where
  "mathMax h a b = Number (nmax (toNumber h a) (toNumber h b))"

definition mathMin :: "host \<Rightarrow> jv \<Rightarrow> jv \<Rightarrow> jv" where
  "mathMin h a b = Number (nmin (toNumber h a) (toNumber h b))"

text \<open>\<open>a < b\<close> and \<open>a > b\<close> with a number on the right; \<open>a - b\<close>.\<close>

fun nless :: "jsnum \<Rightarrow> jsnum \<Rightarrow> bool" where
  "nless (Num x) (Num y) = (x < y)"
| "nless _ _ = False"

definition jsLt :: "host \<Rightarrow> jv \<Rightarrow> real \<Rightarrow> bool" where
  "jsLt h a y = nless (toNumber h a) (Num y)"

definition jsGt :: "host \<Rightarrow> jv \<Rightarrow> real \<Rightarrow> bool" where
  "jsGt h a y = nless (Num y) (toNumber h a)"

definition jsMinus :: "host \<Rightarrow> jv \<Rightarrow> jv \<Rightarrow> jv" where
  "jsMinus h a b = Number (jsub (toNumber h a) (toNumber h b))"

abbreviation num :: "real \<Rightarrow> jv" where
  "num x \<equiv> Number (Num x)"

subsection \<open>clamp, sanitizeFills, handlePositionsToTransform\<close>

text \<open>\<open>clamp(val, min = 0, max = 1)\<close>; every call passes one argument.\<close>

definition clamp :: "host \<Rightarrow> jv \<Rightarrow> jv" where
  "clamp h val = mathMin h (mathMax h val (num 0)) (num 1)"

definition identityTransform :: jv where
  "identityTransform = Arr [Arr [num 1, num 0, num 0], Arr [num 0, num 1, num 0]]"

text \<open>
  A computation that can throw returns an option: \<open>None\<close> is the \<open>TypeError\<close> of reading
  a property of \<open>null\<close> or \<open>undefined\<close>, or of calling \<open>map\<close> on a value that has none.
\<close>

definition handlePositionsToTransform :: "host \<Rightarrow> jv \<Rightarrow> jv option" where
  "handlePositionsToTransform h handles =
     (if \<not> truthy handles \<or> jsLt h (getProp handles ''length'') 3 then Some identityTransform
      else
        (let start = idx handles 0;
             end' = idx handles 1;
             width = idx handles 2
         in if nullish end' \<or> nullish start \<or> nullish width then None
            else
              (let dx = jsMinus h (getProp end' ''x'') (getProp start ''x'');
                   dy = jsMinus h (getProp end' ''y'') (getProp start ''y'');
                   wx = jsMinus h (getProp width ''x'') (getProp start ''x'');
                   wy = jsMinus h (getProp width ''y'') (getProp start ''y'')
               in Some (Arr [Arr [dx, wx, getProp start ''x''],
                             Arr [dy, wy, getProp start ''y'']]))))"

definition sanitizeStop :: "host \<Rightarrow> jv \<Rightarrow> jv option" where
  "sanitizeStop h stop =
     (if nullish stop then None
      else
        (let sc = jsOr (getProp stop ''color'') (Obj [])
         in Some (Obj [(''color'',
                        Obj [(''r'', clamp h (jsOr (getProp sc ''r'') (num 0))),
                             (''g'', clamp h (jsOr (getProp sc ''g'') (num 0))),
                             (''b'', clamp h (jsOr (getProp sc ''b'') (num 0))),
                             (''a'', if getProp sc ''a'' \<noteq> Undefined then clamp h (getProp sc ''a'')
                                     else num 1)]),
                       (''position'', clamp h (jsOr (getProp stop ''position'') (num 0)))])))"

text \<open>\<open>xs.map(f)\<close> with a callback that can throw: the first exception ends the run.\<close>

fun mapThrow :: "('a \<Rightarrow> 'b option) \<Rightarrow> 'a list \<Rightarrow> 'b list option" where
  "mapThrow f [] = Some []"
| "mapThrow f (x # xs) =
     (case f x of
        None \<Rightarrow> None
      | Some y \<Rightarrow> (case mapThrow f xs of None \<Rightarrow> None | Some ys \<Rightarrow> Some (y # ys)))"

text \<open>The callback of \<open>fills.map\<close> in \<open>sanitizeFills\<close>.\<close>

definition sanitizeFill :: "host \<Rightarrow> jv \<Rightarrow> jv option" where
  "sanitizeFill h fill =
     (if nullish fill then None
      else if getProp fill ''type'' = Str ''SOLID'' then
        (let c = jsOr (getProp fill ''color'') (Obj [])
         in Some (Obj [(''type'', Str ''SOLID''),
                       (''color'',
                        Obj [(''r'', clamp h (jsOr (getProp c ''r'') (num 0))),
                             (''g'', clamp h (jsOr (getProp c ''g'') (num 0))),
                             (''b'', clamp h (jsOr (getProp c ''b'') (num 0)))]),
                       (''opacity'', if getProp fill ''opacity'' \<noteq> Undefined
                                     then clamp h (getProp fill ''opacity'') else num 1)]))
      else if getProp fill ''type'' = Str ''GRADIENT_LINEAR''
              \<or> getProp fill ''type'' = Str ''GRADIENT_RADIAL'' then
        (case (case jsOr (getProp fill ''gradientStops'') (Arr []) of
                 Arr stops \<Rightarrow> mapThrow (sanitizeStop h) stops
               | _ \<Rightarrow> None) of
           None \<Rightarrow> None
         | Some stops' \<Rightarrow>
             (case (if truthy (getProp fill ''gradientHandlePositions'')
                    then handlePositionsToTransform h (getProp fill ''gradientHandlePositions'')
                    else Some identityTransform) of
                None \<Rightarrow> None
              | Some transform \<Rightarrow>
                  Some (Obj [(''type'', getProp fill ''type''),
                             (''gradientStops'', Arr stops'),
                             (''gradientTransform'', transform)])))
      else Some fill)"

definition isArray :: "jv \<Rightarrow> bool" where
  "isArray v = (case v of Arr xs \<Rightarrow> True | _ \<Rightarrow> False)"

definition sanitizeFills :: "host \<Rightarrow> jv \<Rightarrow> jv option" where
  "sanitizeFills h fills =
     (if \<not> truthy fills \<or> \<not> isArray fills then Some (Arr [])
      else (case fills of
              Arr xs \<Rightarrow> map_option (\<lambda>ys. Arr (filter truthy ys)) (mapThrow (sanitizeFill h) xs)
            | _ \<Rightarrow> Some (Arr [])))"

section \<open>The scene and the node builders of the Materializer\<close>

text \<open>
  The scene of the design tool is a store of nodes; a node's identity is its index.
  A node has a kind, the properties assigned to it (the latest assignment first), its
  children and its parent. \<open>figma.createNodeFromSvg\<close> returns a frame, which can take
  children. The state of a run adds what the user is shown (\<open>figma.notify\<close>), the
  progress messages posted to the UI, the viewport request and the two counters of the
  message handler.
\<close>

datatype nodeKind = FRAME | TEXT | RECTANGLE | SVGFRAME

record fnode =
  fn_kind :: nodeKind
  fn_props :: "(string \<times> jv) list"
  fn_children :: "nat list"
  fn_parent :: "nat option"

datatype notice = InvalidDesign | StartingImport | ImportComplete nat | ImportFailed

datatype progressText = PStarting | PProcessing nat nat | PComplete | PError

record state =
  nodes :: "fnode list"
  notices :: "notice list"
  progress :: "(progressText \<times> jsnum) list"
  zoomedTo :: "nat list option"
  processedNodes :: nat
  totalNodes :: nat

definition createNode :: "nodeKind \<Rightarrow> state \<Rightarrow> nat \<times> state" where
  "createNode k s =
     (length (nodes s),
      s\<lparr> nodes := nodes s @ [\<lparr> fn_kind = k, fn_props = [], fn_children = [],
                                fn_parent = None \<rparr>] \<rparr>)"

definition setProp :: "nat \<Rightarrow> string \<Rightarrow> jv \<Rightarrow> state \<Rightarrow> state" where
  "setProp i k v s =
     s\<lparr> nodes := (nodes s)[i := (nodes s ! i)\<lparr> fn_props := (k, v) # fn_props (nodes s ! i) \<rparr>] \<rparr>"

definition readProp :: "state \<Rightarrow> nat \<Rightarrow> string \<Rightarrow> jv" where
  "readProp s i k = (case map_of (fn_props (nodes s ! i)) k of Some v \<Rightarrow> v | None \<Rightarrow> Undefined)"

definition resize :: "nat \<Rightarrow> jv \<Rightarrow> jv \<Rightarrow> state \<Rightarrow> state" where
  "resize i w hgt s = setProp i ''height'' hgt (setProp i ''width'' w s)"

definition hasAppendChild :: "state \<Rightarrow> nat \<Rightarrow> bool" where
  "hasAppendChild s i = (fn_kind (nodes s ! i) = FRAME \<or> fn_kind (nodes s ! i) = SVGFRAME)"

definition appendChild :: "nat \<Rightarrow> nat \<Rightarrow> state \<Rightarrow> state" where
  "appendChild p c s =
     s\<lparr> nodes := ((nodes s)[p := (nodes s ! p)\<lparr> fn_children := fn_children (nodes s ! p) @ [c] \<rparr>])
                     [c := (nodes s ! c)\<lparr> fn_parent := Some p \<rparr>] \<rparr>"

definition notify :: "notice \<Rightarrow> state \<Rightarrow> state" where
  "notify n s = s\<lparr> notices := notices s @ [n] \<rparr>"

definition sendProgress :: "progressText \<Rightarrow> jsnum \<Rightarrow> state \<Rightarrow> state" where
  "sendProgress msg percent s = s\<lparr> progress := progress s @ [(msg, percent)] \<rparr>"

text \<open>\<open>v && v.length > 0\<close>, as a condition.\<close>

definition hasItems :: "host \<Rightarrow> jv \<Rightarrow> bool" where
  "hasItems h v = (truthy v \<and> jsGt h (getProp v ''length'') 0)"

text \<open>
  A builder that can throw returns \<open>None\<close> with the state reached when the exception
  left it.
\<close>

definition applyStrokes :: "host \<Rightarrow> nat \<Rightarrow> jv \<Rightarrow> state \<Rightarrow> unit option \<times> state" where
  "applyStrokes h figmaNode node s =
     (if hasItems h (getProp node ''strokes'') then
        (case sanitizeFills h (getProp node ''strokes'') of
           None \<Rightarrow> (None, s)
         | Some strokes \<Rightarrow>
             (let s1 = setProp figmaNode ''strokes'' strokes s;
                  s2 = (if truthy (getProp node ''strokeWeight'')
                        then setProp figmaNode ''strokeWeight'' (getProp node ''strokeWeight'') s1
                        else s1)
              in (Some (), setProp figmaNode ''strokeAlign''
                             (jsOr (getProp node ''strokeAlign'') (Str ''INSIDE'')) s2)))
      else (Some (), s))"

definition applyCornerRadius :: "nat \<Rightarrow> jv \<Rightarrow> state \<Rightarrow> state" where
  "applyCornerRadius figmaNode node s =
     (if getProp node ''topLeftRadius'' \<noteq> Undefined \<or>
         getProp node ''topRightRadius'' \<noteq> Undefined \<or>
         getProp node ''bottomRightRadius'' \<noteq> Undefined \<or>
         getProp node ''bottomLeftRadius'' \<noteq> Undefined
      then
        setProp figmaNode ''bottomLeftRadius'' (jsOr (getProp node ''bottomLeftRadius'') (num 0))
       (setProp figmaNode ''bottomRightRadius'' (jsOr (getProp node ''bottomRightRadius'') (num 0))
       (setProp figmaNode ''topRightRadius'' (jsOr (getProp node ''topRightRadius'') (num 0))
       (setProp figmaNode ''topLeftRadius'' (jsOr (getProp node ''topLeftRadius'') (num 0)) s)))
      else s)"

text \<open>The callback of \<open>node.effects.map\<close> in \<open>applyEffects\<close>.\<close>

definition sanitizeEffect :: "host \<Rightarrow> jv \<Rightarrow> jv option" where
  "sanitizeEffect h effect =
     (if nullish effect then None
      else
        (let ec = jsOr (getProp effect ''color'') (Obj []);
             eo = jsOr (getProp effect ''offset'') (Obj [])
         in Some (Obj [(''type'', getProp effect ''type''),
                       (''color'',
                        Obj [(''r'', clamp h (jsOr (getProp ec ''r'') (num 0))),
                             (''g'', clamp h (jsOr (getProp ec ''g'') (num 0))),
                             (''b'', clamp h (jsOr (getProp ec ''b'') (num 0))),
                             (''a'', if getProp ec ''a'' \<noteq> Undefined then clamp h (getProp ec ''a'')
                                     else num 1)]),
                       (''offset'',
                        Obj [(''x'', jsOr (getProp eo ''x'') (num 0)),
                             (''y'', jsOr (getProp eo ''y'') (num 0))]),
                       (''radius'', mathMax h (jsOr (getProp effect ''radius'') (num 0)) (num 0)),
                       (''spread'', jsOr (getProp effect ''spread'') (num 0)),
                       (''visible'', Bool True)])))"

definition applyEffects :: "host \<Rightarrow> nat \<Rightarrow> jv \<Rightarrow> state \<Rightarrow> unit option \<times> state" where
  "applyEffects h figmaNode node s =
     (if hasItems h (getProp node ''effects'') then
        (case (case getProp node ''effects'' of
                 Arr effects \<Rightarrow> mapThrow (sanitizeEffect h) effects
               | _ \<Rightarrow> None) of
           None \<Rightarrow> (None, s)
         | Some effects' \<Rightarrow> (Some (), setProp figmaNode ''effects'' (Arr effects') s))
      else (Some (), s))"

text \<open>\<open>Math.max(node.width || d, 1)\<close>, the size every builder computes.\<close>

definition sizeOf :: "host \<Rightarrow> jv \<Rightarrow> string \<Rightarrow> real \<Rightarrow> jv" where
  "sizeOf h node k d = mathMax h (jsOr (getProp node k) (num d)) (num 1)"

definition createFrameNode :: "host \<Rightarrow> jv \<Rightarrow> state \<Rightarrow> nat option \<times> state" where
  "createFrameNode h node s =
     (let (frame, s1) = createNode FRAME s
      in if nullish node then (None, s1)
         else
           (let s2 = resize frame (sizeOf h node ''width'' 1) (sizeOf h node ''height'' 1) s1;
                s3 = setProp frame ''clipsContent''
                       (jsOr (getProp node ''clipsContent'') (Bool False)) s2
            in case (if hasItems h (getProp node ''fills'')
                     then sanitizeFills h (getProp node ''fills'') else Some (Arr [])) of
                 None \<Rightarrow> (None, s3)
               | Some fills \<Rightarrow>
                   (case applyStrokes h frame node (setProp frame ''fills'' fills s3) of
                      (None, s4) \<Rightarrow> (None, s4)
                    | (Some _, s4) \<Rightarrow>
                        (case applyEffects h frame node (applyCornerRadius frame node s4) of
                           (None, s5) \<Rightarrow> (None, s5)
                         | (Some _, s5) \<Rightarrow> (Some frame, s5)))))"

subsection \<open>Text\<close>

text \<open>
  \<open>sanitizeFontFamily\<close>. \<open>family.replace\<close> exists on strings only: any other truthy
  value throws. A family named like a property that the table inherits from
  \<open>Object.prototype\<close> is outside the model.
\<close>

definition systemFontMap :: "(string \<times> string) list" where
  "systemFontMap =
     [(''system-ui'', ''Inter''), (''-apple-system'', ''Inter''),
      (''BlinkMacSystemFont'', ''Inter''), (''Segoe UI'', ''Inter''),
      (''ui-sans-serif'', ''Inter''), (''ui-serif'', ''Georgia''),
      (''ui-monospace'', ''Roboto Mono''), (''sans-serif'', ''Inter''),
      (''serif'', ''Georgia''), (''monospace'', ''Roboto Mono'')]"

definition sanitizeFontFamily :: "jv \<Rightarrow> jv option" where
  "sanitizeFontFamily family =
     (if \<not> truthy family then Some (Str ''Inter'')
      else (case family of
              Str s \<Rightarrow>
                (let cleaned = trim (takeWhile (\<lambda>c. c \<noteq> CHR '','')
                                       (filter (\<lambda>c. c \<noteq> CHR 0x27 \<and> c \<noteq> CHR 0x22) s))
                 in Some (jsOr (case map_of systemFontMap cleaned of
                                  Some f \<Rightarrow> Str f
                                | None \<Rightarrow> Undefined)
                               (Str cleaned)))
            | _ \<Rightarrow> None))"

definition fontOf :: "jv \<Rightarrow> jv \<Rightarrow> jv" where
  "fontOf family style = Obj [(''family'', family), (''style'', style)]"

text \<open>
  The fallback cascade: the first of the four fonts that loads, else the unconditional
  last attempt at Inter Regular, which throws when it fails too.
\<close>

definition resolveFont :: "host \<Rightarrow> jv \<Rightarrow> jv \<Rightarrow> jv option" where
  "resolveFont h fontFamily fontStyle =
     (let fontsToTry = [fontOf fontFamily fontStyle, fontOf fontFamily (Str ''Regular''),
                        fontOf (Str ''Inter'') fontStyle, fontOf (Str ''Inter'') (Str ''Regular'')]
      in case find (loadFont h) fontsToTry of
           Some font \<Rightarrow> Some font
         | None \<Rightarrow>
             if loadFont h (fontOf (Str ''Inter'') (Str ''Regular''))
             then Some (fontOf (Str ''Inter'') (Str ''Regular'')) else None)"

text \<open>The first lines of \<open>createTextNode\<close>: is a wrapping frame needed?\<close>

definition needsWrapper :: "host \<Rightarrow> jv \<Rightarrow> bool" where
  "needsWrapper h node =
     (let hasBackground = hasItems h (getProp node ''backgroundFills'');
          hasBorder = hasItems h (getProp node ''strokes'');
          hasRadius = truthy (jsOr (jsOr (jsOr (getProp node ''topLeftRadius'')
                                               (getProp node ''topRightRadius''))
                                         (getProp node ''bottomRightRadius''))
                                   (getProp node ''bottomLeftRadius''));
          hasEffects = hasItems h (getProp node ''effects'')
      in hasBackground \<or> hasBorder \<or> hasRadius \<or> hasEffects)"

text \<open>The block \<open>if (needsWrapper) { ... }\<close>.\<close>

definition createWrapper :: "host \<Rightarrow> jv \<Rightarrow> state \<Rightarrow> nat option \<times> state" where
  "createWrapper h node s =
     (let (wrapper, s1) = createNode FRAME s;
          s2 = setProp wrapper ''name'' (jsOr (getProp node ''name'') (Str ''text-container'')) s1;
          s3 = resize wrapper (sizeOf h node ''width'' 1) (sizeOf h node ''height'' 1) s2;
          s4 = setProp wrapper ''clipsContent'' (Bool False) s3
      in case (if hasItems h (getProp node ''backgroundFills'')
               then sanitizeFills h (getProp node ''backgroundFills'') else Some (Arr [])) of
           None \<Rightarrow> (None, s4)
         | Some fills \<Rightarrow>
             (case applyStrokes h wrapper node (setProp wrapper ''fills'' fills s4) of
                (None, s5) \<Rightarrow> (None, s5)
              | (Some _, s5) \<Rightarrow>
                  (case applyEffects h wrapper node (applyCornerRadius wrapper node s5) of
                     (None, s6) \<Rightarrow> (None, s6)
                   | (Some _, s6) \<Rightarrow> (Some wrapper, s6))))"

text \<open>The styling of the text primitive, from the text content to the decoration.\<close>

definition styleText :: "nat \<Rightarrow> jv \<Rightarrow> state \<Rightarrow> state" where
  "styleText textNode node s =
     (let s1 = setProp textNode ''characters'' (jsOr (getProp node ''characters'') (Str [])) s;
          s2 = (if truthy (getProp node ''fontSize'')
                then setProp textNode ''fontSize'' (getProp node ''fontSize'') s1 else s1);
          s3 = (if truthy (getProp node ''lineHeight'') then
                  (if getProp (getProp node ''lineHeight'') ''unit'' = Str ''AUTO''
                   then setProp textNode ''lineHeight'' (Obj [(''unit'', Str ''AUTO'')]) s2
                   else if truthy (getProp (getProp node ''lineHeight'') ''value'')
                   then setProp textNode ''lineHeight''
                          (Obj [(''unit'', Str ''PIXELS''),
                                (''value'', getProp (getProp node ''lineHeight'') ''value'')]) s2
                   else s2)
                else s2);
          s4 = (if truthy (getProp node ''letterSpacing'')
                then setProp textNode ''letterSpacing''
                       (Obj [(''unit'', Str ''PIXELS''), (''value'', getProp node ''letterSpacing'')]) s3
                else s3);
          s5 = (if truthy (getProp node ''textAlignHorizontal'')
                then setProp textNode ''textAlignHorizontal'' (getProp node ''textAlignHorizontal'') s4
                else s4)
      in if truthy (getProp node ''textDecoration'') \<and> getProp node ''textDecoration'' \<noteq> Str ''NONE''
         then setProp textNode ''textDecoration'' (getProp node ''textDecoration'') s5
         else s5)"

text \<open>From \<open>figma.createText()\<close> to \<open>textAutoResize\<close>.\<close>

definition createTextPrimitive :: "host \<Rightarrow> jv \<Rightarrow> state \<Rightarrow> nat option \<times> state" where
  "createTextPrimitive h node s =
     (let (textNode, s1) = createNode TEXT s
      in case sanitizeFontFamily (getProp node ''fontFamily'') of
           None \<Rightarrow> (None, s1)
         | Some fontFamily \<Rightarrow>
             (case resolveFont h fontFamily (jsOr (getProp node ''figmaFontStyle'') (Str ''Regular'')) of
                None \<Rightarrow> (None, s1)
              | Some font \<Rightarrow>
                  (let s2 = styleText textNode node (setProp textNode ''fontName'' font s1)
                   in case (if hasItems h (getProp node ''fills'')
                            then map_option (\<lambda>f. setProp textNode ''fills'' f s2)
                                   (sanitizeFills h (getProp node ''fills''))
                            else Some s2) of
                        None \<Rightarrow> (None, s2)
                      | Some s3 \<Rightarrow>
                          (Some textNode,
                           setProp textNode ''textAutoResize'' (Str ''NONE'')
                             (resize textNode (sizeOf h node ''width'' 1)
                                (sizeOf h node ''height'' 1) s3)))))"

definition createTextNode :: "host \<Rightarrow> jv \<Rightarrow> state \<Rightarrow> nat option \<times> state" where
  "createTextNode h node s =
     (if nullish node then (None, s)
      else if needsWrapper h node then
        (case createWrapper h node s of
           (None, s1) \<Rightarrow> (None, s1)
         | (Some wrapper, s1) \<Rightarrow>
             (case createTextPrimitive h node s1 of
                (None, s2) \<Rightarrow> (None, s2)
              | (Some textNode, s2) \<Rightarrow>
                  (Some wrapper,
                   appendChild wrapper textNode
                     (setProp textNode ''y'' (num 0) (setProp textNode ''x'' (num 0) s2)))))
      else createTextPrimitive h node s)"

subsection \<open>Vector and raster nodes\<close>

definition solidFill :: "real \<Rightarrow> real \<Rightarrow> real \<Rightarrow> jv" where
  "solidFill r g b =
     Arr [Obj [(''type'', Str ''SOLID''),
               (''color'', Obj [(''r'', num r), (''g'', num g), (''b'', num b)])]]"

definition imageFill :: "jv \<Rightarrow> jv" where
  "imageFill hash =
     Arr [Obj [(''type'', Str ''IMAGE''), (''scaleMode'', Str ''FILL''), (''imageHash'', hash)]]"

definition createSvgNode :: "host \<Rightarrow> jv \<Rightarrow> state \<Rightarrow> nat option \<times> state" where
  "createSvgNode h node s =
     (if nullish node then (None, s)
      else if \<not> truthy (getProp node ''svgContent'') then
        (let (rect, s1) = createNode RECTANGLE s
         in (Some rect,
             setProp rect ''fills'' (solidFill 0.8 0.8 0.8)
               (resize rect (sizeOf h node ''width'' 24) (sizeOf h node ''height'' 24) s1)))
      else if svgParses h (getProp node ''svgContent'') then
        (let (svgNode, s1) = createNode SVGFRAME s
         in (Some svgNode,
             if truthy (getProp node ''width'') \<and> truthy (getProp node ''height'')
             then resize svgNode (mathMax h (getProp node ''width'') (num 1))
                    (mathMax h (getProp node ''height'') (num 1)) s1
             else s1))
      else
        (let (rect, s1) = createNode RECTANGLE s
         in (Some rect,
             setProp rect ''name'' (Str ''SVG (parse error)'')
               (setProp rect ''fills'' (solidFill 0.9 0.7 0.7)
                  (resize rect (sizeOf h node ''width'' 24) (sizeOf h node ''height'' 24) s1)))))"

definition createImageNode :: "host \<Rightarrow> jv \<Rightarrow> state \<Rightarrow> nat option \<times> state" where
  "createImageNode h node s =
     (let (rect, s1) = createNode RECTANGLE s
      in if nullish node then (None, s1)
         else
           (let s2 = resize rect (sizeOf h node ''width'' 100) (sizeOf h node ''height'' 100) s1
            in if truthy (getProp node ''imageBase64'') then
                 (if imageDecodes h (getProp node ''imageBase64'')
                  then (Some rect,
                        setProp rect ''fills'' (imageFill (imageHashOf h (getProp node ''imageBase64''))) s2)
                  else (Some rect,
                        setProp rect ''name'' (jsOr (getProp node ''name'') (Str ''Image (load error)''))
                          (setProp rect ''fills'' (solidFill 0.85 0.85 0.9) s2)))
               else if truthy (getProp node ''imageUrl'') then
                 (if imageResolves h (getProp node ''imageUrl'')
                  then (Some rect,
                        setProp rect ''fills'' (imageFill (imageHashOf h (getProp node ''imageUrl''))) s2)
                  else (Some rect,
                        setProp rect ''name'' (jsOr (getProp node ''name'') (Str ''Image (URL error)''))
                          (setProp rect ''fills'' (solidFill 0.85 0.85 0.9) s2)))
               else (Some rect, setProp rect ''fills'' (solidFill 0.9 0.9 0.9) s2)))"

subsection \<open>The recursive node processor and the message handler\<close>

text \<open>
  \<open>for (const child of v)\<close>: an array gives its elements, a string its characters, any
  other value is not iterable and the loop throws.
\<close>

definition iterOf :: "jv \<Rightarrow> jv list option" where
  "iterOf v = (case v of
      Arr xs \<Rightarrow> Some xs
    | Str s \<Rightarrow> Some (map (\<lambda>c. Str [c]) s)
    | _ \<Rightarrow> None)"

text \<open>A measure on values under which the children of a node are smaller than the node.\<close>

fun weight :: "jv \<Rightarrow> nat" where
  "weight (Obj kvs) = 1 + sum_list (map (\<lambda>kv. weight (snd kv)) kvs)"
| "weight (Arr xs) = 1 + sum_list (map (\<lambda>x. weight x + 1) xs)"
| "weight (Str s) = 1 + length s"
| "weight _ = 0"

definition nodeWeight :: "jv \<Rightarrow> nat" where
  "nodeWeight v = (case v of Obj kvs \<Rightarrow> weight v | _ \<Rightarrow> 0)"

definition childrenWeight :: "jv list \<Rightarrow> nat" where
  "childrenWeight cs = sum_list (map (\<lambda>c. nodeWeight c + 1) cs)"

lemma weight_map_of: "map_of kvs k = Some v \<Longrightarrow> weight v < weight (Obj kvs)"
  by (induction kvs) (auto split: if_splits)

lemma nodeWeight_le: "nodeWeight v \<le> weight v"
  by (cases v) (simp_all add: nodeWeight_def)

lemma childrenWeight_Arr: "childrenWeight xs < weight (Arr xs)"
proof -
  have "sum_list (map (\<lambda>c. nodeWeight c + 1) xs) \<le> sum_list (map (\<lambda>x. weight x + 1) xs)"
    by (rule sum_list_mono) (simp add: nodeWeight_le)
  then show ?thesis by (simp add: childrenWeight_def)
qed

lemma childrenWeight_Str: "childrenWeight (map (\<lambda>c. Str [c]) s) < weight (Str s)"
  by (induction s) (simp_all add: childrenWeight_def nodeWeight_def)

lemma children_smaller:
  assumes "iterOf (getProp node k) = Some cs"
  shows "childrenWeight cs < nodeWeight node"
proof (cases node)
  case (Obj kvs)
  show ?thesis
  proof (cases "map_of kvs k")
    case None
    with Obj assms show ?thesis by (simp add: iterOf_def)
  next
    case (Some v)
    then have v: "weight v < weight (Obj kvs)" by (rule weight_map_of)
    have "childrenWeight cs < weight v"
      using assms Obj Some childrenWeight_Arr childrenWeight_Str
      by (auto simp: iterOf_def split: jv.splits)
    with v Obj show ?thesis by (simp add: nodeWeight_def)
  qed
qed (use assms in \<open>auto simp: iterOf_def split: if_splits\<close>)

lemma mapThrow_cong [fundef_cong]:
  "xs = ys \<Longrightarrow> (\<And>x. x \<in> set ys \<Longrightarrow> f x = g x) \<Longrightarrow> mapThrow f xs = mapThrow g ys"
  by (induction ys arbitrary: xs) (auto split: option.splits)

lemma element_smaller:
  assumes "getProp n k = Arr xs" "x \<in> set xs"
  shows "weight x < weight n"
proof (cases n)
  case (Obj kvs)
  with assms(1) have "weight (Arr xs) < weight n"
    by (auto split: option.splits dest: weight_map_of)
  moreover have "weight x < weight (Arr xs)"
    using assms(2) by (induction xs) auto
  ultimately show ?thesis by simp
qed (use assms in \<open>auto split: if_splits\<close>)

text \<open>
  \<open>countNodes\<close>, as the count it adds to \<open>totalNodes\<close>. \<open>n.children.forEach\<close> exists on
  arrays only.
\<close>

function countNodes :: "jv \<Rightarrow> nat option" where
  "countNodes n =
     (if \<not> truthy n then Some 0
      else if \<not> truthy (getProp n ''children'') then Some 1
      else (case getProp n ''children'' of
              Arr xs \<Rightarrow> map_option (\<lambda>ks. 1 + sum_list ks) (mapThrow countNodes xs)
            | _ \<Rightarrow> None))"
  by pat_completeness auto
termination
  by (relation "measure weight") (auto dest: element_smaller)

declare countNodes.simps [simp del]

text \<open>The percentage sent with a progress message; \<open>totalNodes\<close> is at least 1 when
  \<open>processNode\<close> runs.\<close>

definition percentOf :: "nat \<Rightarrow> nat \<Rightarrow> jsnum" where
  "percentOf done tot = Num (of_int (round (real done / real tot * 100)))"

definition countLayer :: "state \<Rightarrow> state" where
  "countLayer s =
     (let s1 = s\<lparr> processedNodes := processedNodes s + 1 \<rparr>
      in if processedNodes s1 mod 50 = 0
         then sendProgress (PProcessing (processedNodes s1) (totalNodes s1))
                (percentOf (processedNodes s1) (totalNodes s1)) s1
         else s1)"

text \<open>The \<open>switch\<close> on \<open>node.type\<close>.\<close>

definition createByType :: "host \<Rightarrow> jv \<Rightarrow> state \<Rightarrow> nat option \<times> state" where
  "createByType h node s =
     (if getProp node ''type'' = Str ''TEXT'' then createTextNode h node s
      else if getProp node ''type'' = Str ''SVG'' then createSvgNode h node s
      else if getProp node ''type'' = Str ''IMAGE'' then createImageNode h node s
      else createFrameNode h node s)"

text \<open>Position, opacity, name, and attachment to the parent.\<close>

definition placeNode :: "host \<Rightarrow> jv \<Rightarrow> nat \<Rightarrow> nat \<Rightarrow> state \<Rightarrow> state" where
  "placeNode h node figmaNode parent s =
     (let s1 = (if getProp node ''x'' \<noteq> Undefined
                then setProp figmaNode ''x'' (getProp node ''x'') s else s);
          s2 = (if getProp node ''y'' \<noteq> Undefined
                then setProp figmaNode ''y'' (getProp node ''y'') s1 else s1);
          s3 = (if getProp node ''opacity'' \<noteq> Undefined \<and> jsLt h (getProp node ''opacity'') 1
                then setProp figmaNode ''opacity'' (getProp node ''opacity'') s2 else s2);
          s4 = (if truthy (getProp node ''name'')
                then setProp figmaNode ''name'' (getProp node ''name'') s3 else s3)
      in if hasAppendChild s4 parent then appendChild parent figmaNode s4 else s4)"

text \<open>
  \<open>processNode\<close> and its loop over the children. The result is \<open>Some None\<close> for
  \<open>return null\<close>, \<open>Some (Some i)\<close> for the node returned, \<open>None\<close> for an exception.
\<close>

function processNode :: "host \<Rightarrow> jv \<Rightarrow> nat \<Rightarrow> state \<Rightarrow> nat option option \<times> state"
  and processChildren :: "host \<Rightarrow> jv list \<Rightarrow> nat \<Rightarrow> state \<Rightarrow> unit option \<times> state" where
  "processNode h node parent s =
     (if \<not> truthy node then (Some None, s)
      else
        (case createByType h node (countLayer s) of
           (None, s1) \<Rightarrow> (None, s1)
         | (Some figmaNode, s1) \<Rightarrow>
             (if hasItems h (getProp node ''children'')
                 \<and> hasAppendChild (placeNode h node figmaNode parent s1) figmaNode then
                (case iterOf (getProp node ''children'') of
                   None \<Rightarrow> (None, placeNode h node figmaNode parent s1)
                 | Some cs \<Rightarrow>
                     (case processChildren h cs figmaNode (placeNode h node figmaNode parent s1) of
                        (None, s2) \<Rightarrow> (None, s2)
                      | (Some _, s2) \<Rightarrow> (Some (Some figmaNode), s2)))
              else (Some (Some figmaNode), placeNode h node figmaNode parent s1))))"
| "processChildren h [] parent s = (Some (), s)"
| "processChildren h (child # cs) parent s =
     (case processNode h child parent s of
        (None, s1) \<Rightarrow> (None, s1)
      | (Some _, s1) \<Rightarrow> processChildren h cs parent s1)"
  by pat_completeness auto
termination
  by (relation "measure (\<lambda>x. case x of
          Inl (h, node, parent, s) \<Rightarrow> 2 * nodeWeight node + 1
        | Inr (h, cs, parent, s) \<Rightarrow> 2 * childrenWeight cs)")
     (auto simp: childrenWeight_def dest: children_smaller)

declare processNode.simps [simp del]

text \<open>
  \<open>figma.ui.onmessage\<close>. The \<open>try\<close> block either completes or is left by an exception,
  which the \<open>catch\<close> reports.
\<close>

definition importFailed :: "state \<Rightarrow> state" where
  "importFailed s = sendProgress PError (Num 0) (notify ImportFailed s)"

definition importDesign :: "host \<Rightarrow> jv \<Rightarrow> state \<Rightarrow> state" where
  "importDesign h data s =
     (case countNodes (getProp data ''rootNode'') of
        None \<Rightarrow> importFailed s
      | Some n \<Rightarrow>
          (let (rootFrame, s1) = createNode FRAME (s\<lparr> totalNodes := n, processedNodes := 0 \<rparr>);
               s2 = setProp rootFrame ''name''
                      (jsOr (getProp data ''pageTitle'') (Str ''Imported Web Page'')) s1;
               s3 = resize rootFrame
                      (jsOr (getProp data ''viewportWidth'') (num 1440))
                      (jsOr (jsOr (getProp data ''fullHeight'') (getProp data ''viewportHeight''))
                            (num 900)) s2
           in case processNode h (getProp data ''rootNode'') rootFrame s3 of
                (None, s4) \<Rightarrow> importFailed s4
              | (Some _, s4) \<Rightarrow>
                  (let s5 = setProp rootFrame ''x''
                              (Number (jsub (fst (viewportCenter h))
                                 (jdiv (toNumber h (readProp s4 rootFrame ''width'')) (Num 2)))) s4;
                       s6 = setProp rootFrame ''y''
                              (Number (jsub (snd (viewportCenter h))
                                 (jdiv (toNumber h (readProp s5 rootFrame ''height'')) (Num 2)))) s5;
                       s7 = s6\<lparr> zoomedTo := Some [rootFrame] \<rparr>
                   in notify (ImportComplete (processedNodes s7))
                        (sendProgress PComplete (Num 100) s7))))"

definition onmessage :: "host \<Rightarrow> jv \<Rightarrow> state \<Rightarrow> state" where
  "onmessage h msg s =
     (if \<not> nullish msg \<and> getProp msg ''type'' = Str ''import-design'' then
        (let data = getProp msg ''data''
         in if \<not> truthy data \<or> \<not> truthy (getProp data ''rootNode'')
            then notify InvalidDesign s
            else importDesign h data (sendProgress PStarting (Num 0) (notify StartingImport s)))
      else s)"

section \<open>Notions used to state the properties of the Materializer\<close>

text \<open>A host for the evaluations on concrete inputs.\<close>

definition plainHost :: host where
  "plainHost = \<lparr> toNum = (\<lambda>v. NaN), loadFont = (\<lambda>v. True), svgParses = (\<lambda>v. True),
                  imageDecodes = (\<lambda>v. True), imageResolves = (\<lambda>v. True),
                  imageHashOf = (\<lambda>v. Str ''hash''), viewportCenter = (Num 0, Num 0) \<rparr>"

text \<open>A paint type that \<open>sanitizeFills\<close> recognises.\<close>

definition recognised :: "jv \<Rightarrow> bool" where
  "recognised fill =
     (getProp fill ''type'' = Str ''SOLID'' \<or> getProp fill ''type'' = Str ''GRADIENT_LINEAR''
      \<or> getProp fill ''type'' = Str ''GRADIENT_RADIAL'')"

text \<open>
  A field that holds a number, \<open>null\<close>, or is absent: what the IR schema and its JSON
  encoding allow where a number is expected. A value in the unit interval; a number that
  is not negative.
\<close>

definition numeric :: "jv \<Rightarrow> bool" where
  "numeric v = (v = Undefined \<or> v = Null \<or> (\<exists>x. v = num x))"

definition unitInterval :: "jv \<Rightarrow> bool" where
  "unitInterval v = (\<exists>x. v = num x \<and> 0 \<le> x \<and> x \<le> 1)"

definition nonNegative :: "jv \<Rightarrow> bool" where
  "nonNegative v = (\<exists>x. v = num x \<and> 0 \<le> x)"

text \<open>
  Paints of the IR: a color is absent or an object with numeric channels; a solid paint
  has such a color and a numeric opacity; a gradient has a stop list (absent, or an array
  of stops with such colors and numeric positions) and handle positions that are absent or
  an array, of which the first three entries are objects when there are three.
\<close>

definition irColor :: "jv \<Rightarrow> bool" where
  "irColor c =
     (c = Undefined \<or>
      (\<exists>kvs. c = Obj kvs \<and> numeric (getProp c ''r'') \<and> numeric (getProp c ''g'')
               \<and> numeric (getProp c ''b'') \<and> numeric (getProp c ''a'')))"

definition irSolid :: "jv \<Rightarrow> bool" where
  "irSolid fill =
     (\<exists>kvs. fill = Obj kvs \<and> getProp fill ''type'' = Str ''SOLID''
             \<and> irColor (getProp fill ''color'') \<and> numeric (getProp fill ''opacity''))"

definition irStop :: "jv \<Rightarrow> bool" where
  "irStop stop =
     (\<exists>kvs. stop = Obj kvs \<and> irColor (getProp stop ''color'')
             \<and> numeric (getProp stop ''position''))"

definition irHandles :: "jv \<Rightarrow> bool" where
  "irHandles hs =
     (hs = Undefined \<or>
      (\<exists>ps. hs = Arr ps \<and>
            (3 \<le> length ps \<longrightarrow> \<not> nullish (ps ! 0) \<and> \<not> nullish (ps ! 1) \<and> \<not> nullish (ps ! 2))))"

definition irGradient :: "jv \<Rightarrow> bool" where
  "irGradient fill =
     (\<exists>kvs. fill = Obj kvs
        \<and> (getProp fill ''type'' = Str ''GRADIENT_LINEAR''
            \<or> getProp fill ''type'' = Str ''GRADIENT_RADIAL'')
        \<and> (getProp fill ''gradientStops'' = Undefined
            \<or> (\<exists>stops. getProp fill ''gradientStops'' = Arr stops \<and> (\<forall>st \<in> set stops. irStop st)))
        \<and> irHandles (getProp fill ''gradientHandlePositions''))"

text \<open>
  What a second sanitization does to a sanitized paint: a gradient keeps its type and
  stops and gets the identity transform, any other paint is left as it is.
\<close>

definition resetTransform :: "jv \<Rightarrow> jv" where
  "resetTransform paint =
     (if getProp paint ''type'' = Str ''GRADIENT_LINEAR''
         \<or> getProp paint ''type'' = Str ''GRADIENT_RADIAL''
      then Obj [(''type'', getProp paint ''type''),
                (''gradientStops'', getProp paint ''gradientStops''),
                (''gradientTransform'', identityTransform)]
      else paint)"

text \<open>The sanitized forms of a solid paint, a stop and a gradient.\<close>

definition solidOut :: "jv \<Rightarrow> jv \<Rightarrow> jv \<Rightarrow> jv \<Rightarrow> jv" where
  "solidOut r g b opacity =
     Obj [(''type'', Str ''SOLID''),
          (''color'', Obj [(''r'', r), (''g'', g), (''b'', b)]),
          (''opacity'', opacity)]"

definition stopOut :: "jv \<Rightarrow> jv \<Rightarrow> jv \<Rightarrow> jv \<Rightarrow> jv \<Rightarrow> jv" where
  "stopOut r g b a position =
     Obj [(''color'', Obj [(''r'', r), (''g'', g), (''b'', b), (''a'', a)]),
          (''position'', position)]"

definition gradientOut :: "jv \<Rightarrow> jv list \<Rightarrow> jv \<Rightarrow> jv" where
  "gradientOut ty stops transform =
     Obj [(''type'', ty), (''gradientStops'', Arr stops), (''gradientTransform'', transform)]"

text \<open>A linear gradient of the IR, as the Extractor writes the 90 degree example.\<close>

definition exampleGradient :: jv where
  "exampleGradient =
     Obj [(''type'', Str ''GRADIENT_LINEAR''),
          (''gradientStops'',
           Arr [Obj [(''color'', Obj [(''r'', num 1), (''g'', num 0), (''b'', num 0), (''a'', num 1)]),
                     (''position'', num 0)],
                Obj [(''color'', Obj [(''r'', num 0), (''g'', num 0), (''b'', num 1), (''a'', num 1)]),
                     (''position'', num 1)]]),
          (''gradientHandlePositions'',
           Arr [Obj [(''x'', num 0), (''y'', num 0.5)],
                Obj [(''x'', num 1), (''y'', num 0.5)],
                Obj [(''x'', num 0.5), (''y'', num 1)]])]"

definition exampleSolid :: jv where
  "exampleSolid =
     Obj [(''type'', Str ''SOLID''),
          (''color'', Obj [(''r'', num 1), (''g'', num 0.5), (''b'', num 0)]),
          (''opacity'', num 0.5)]"

definition exampleImage :: jv where
  "exampleImage =
     Obj [(''type'', Str ''IMAGE''), (''scaleMode'', Str ''FILL''), (''opacity'', num 7)]"

definition exampleEffect :: jv where
  "exampleEffect =
     Obj [(''type'', Str ''DROP_SHADOW''),
          (''color'', Obj [(''r'', num 0), (''g'', num 0), (''b'', num 0), (''a'', num 0.25)]),
          (''offset'', Obj [(''x'', num 1), (''y'', num 1)]),
          (''radius'', num (- 5)), (''spread'', num 0), (''visible'', Bool True)]"

definition exampleEffectOut :: jv where
  "exampleEffectOut =
     Obj [(''type'', Str ''DROP_SHADOW''),
          (''color'', Obj [(''r'', num 0), (''g'', num 0), (''b'', num 0), (''a'', num 0.25)]),
          (''offset'', Obj [(''x'', num 1), (''y'', num 1)]),
          (''radius'', num 0), (''spread'', num 0), (''visible'', Bool True)]"

definition oneFrame :: state where
  "oneFrame =
     \<lparr> nodes = [\<lparr> fn_kind = FRAME, fn_props = [], fn_children = [], fn_parent = None \<rparr>],
       notices = [], progress = [], zoomedTo = None, processedNodes = 0, totalNodes = 0 \<rparr>"

text \<open>
  A step that only assigns properties of node \<open>i\<close>: the store keeps its length, every
  node its kind, children and parent, every other node its properties.
\<close>

definition onlyProps :: "nat \<Rightarrow> state \<Rightarrow> state \<Rightarrow> bool" where
  "onlyProps i s s' =
     (length (nodes s') = length (nodes s)
      \<and> (\<forall>j. fn_kind (nodes s' ! j) = fn_kind (nodes s ! j)
             \<and> fn_children (nodes s' ! j) = fn_children (nodes s ! j)
             \<and> fn_parent (nodes s' ! j) = fn_parent (nodes s ! j))
      \<and> (\<forall>j k. j \<noteq> i \<longrightarrow> readProp s' j k = readProp s j k)
      \<and> (\<forall>n \<le> i. take n (nodes s') = take n (nodes s)))"

text \<open>
  The nodes below \<open>n\<close> keep their kind and their properties, and no node disappears.
\<close>

definition oldKept :: "nat \<Rightarrow> state \<Rightarrow> state \<Rightarrow> bool" where
  "oldKept n s s' =
     (length (nodes s) \<le> length (nodes s')
      \<and> (\<forall>j < n. fn_kind (nodes s' ! j) = fn_kind (nodes s ! j)
                  \<and> (\<forall>k. readProp s' j k = readProp s j k)))"

text \<open>
  What a builder leaves behind, whether it returns a node or throws: the nodes that were
  there are as they were, and a node returned is a new one.
\<close>

definition builds :: "nat \<Rightarrow> state \<Rightarrow> nat option \<times> state \<Rightarrow> bool" where
  "builds n s res =
     (take n (nodes (snd res)) = take n (nodes s) \<and> length (nodes s) \<le> length (nodes (snd res))
      \<and> (\<forall>f. fst res = Some f \<longrightarrow> n \<le> f \<and> f < length (nodes (snd res))))"

text \<open>An empty scene, a message and two IR documents for the evaluations.\<close>

definition emptyScene :: state where
  "emptyScene = \<lparr> nodes = [], notices = [], progress = [], zoomedTo = None,
                   processedNodes = 0, totalNodes = 0 \<rparr>"

definition importMessage :: "jv \<Rightarrow> jv" where
  "importMessage data = Obj [(''type'', Str ''import-design''), (''data'', data)]"

definition shortPage :: jv where
  "shortPage =
     Obj [(''pageTitle'', Str ''Page''), (''viewportWidth'', num 1440),
          (''viewportHeight'', num 900), (''fullHeight'', num 500),
          (''rootNode'', Obj [(''type'', Str ''FRAME''), (''width'', num 1440),
                             (''height'', num 500)])]"

definition longPage :: jv where
  "longPage =
     Obj [(''pageTitle'', Str ''Page''), (''viewportWidth'', num 1440),
          (''viewportHeight'', num 900), (''fullHeight'', num 2000),
          (''rootNode'', Obj [(''type'', Str ''FRAME''), (''width'', num 1440),
                             (''height'', num 2000)])]"

text \<open>
  A TEXT node of the IR: an object whose paint and effect lists are arrays or absent and
  whose corner radii are numbers or absent. Such a node carries decoration when it has a
  non-empty \<open>backgroundFills\<close>, a non-empty \<open>strokes\<close> list, a nonzero corner radius or a
  shadow effect.
\<close>

definition listOrAbsent :: "jv \<Rightarrow> bool" where
  "listOrAbsent v = (v = Undefined \<or> (\<exists>xs. v = Arr xs))"

definition nonEmptyList :: "jv \<Rightarrow> bool" where
  "nonEmptyList v = (\<exists>x xs. v = Arr (x # xs))"

definition numberOrAbsent :: "jv \<Rightarrow> bool" where
  "numberOrAbsent v = (v = Undefined \<or> (\<exists>x. v = num x))"

definition nonZero :: "jv \<Rightarrow> bool" where
  "nonZero v = (\<exists>x. v = num x \<and> x \<noteq> 0)"

definition irTextNode :: "jv \<Rightarrow> bool" where
  "irTextNode node =
     ((\<exists>kvs. node = Obj kvs)
      \<and> listOrAbsent (getProp node ''backgroundFills'') \<and> listOrAbsent (getProp node ''strokes'')
      \<and> listOrAbsent (getProp node ''effects'')
      \<and> numberOrAbsent (getProp node ''topLeftRadius'')
      \<and> numberOrAbsent (getProp node ''topRightRadius'')
      \<and> numberOrAbsent (getProp node ''bottomRightRadius'')
      \<and> numberOrAbsent (getProp node ''bottomLeftRadius''))"

definition carriesDecoration :: "jv \<Rightarrow> bool" where
  "carriesDecoration node =
     (nonEmptyList (getProp node ''backgroundFills'') \<or> nonEmptyList (getProp node ''strokes'')
      \<or> nonZero (getProp node ''topLeftRadius'') \<or> nonZero (getProp node ''topRightRadius'')
      \<or> nonZero (getProp node ''bottomRightRadius'') \<or> nonZero (getProp node ''bottomLeftRadius'')
      \<or> nonEmptyList (getProp node ''effects''))"

definition plainText :: jv where
  "plainText =
     Obj [(''type'', Str ''TEXT''), (''characters'', Str ''Hi''), (''width'', num 20),
          (''height'', num 10), (''fills'', Arr [exampleSolid])]"

definition badgeText :: jv where
  "badgeText =
     Obj [(''type'', Str ''TEXT''), (''characters'', Str ''Hi''), (''width'', num 20),
          (''height'', num 10), (''fills'', Arr [exampleSolid]),
          (''backgroundFills'',
           Arr [Obj [(''type'', Str ''SOLID''),
                     (''color'', Obj [(''r'', num 0), (''g'', num 0), (''b'', num 1)]),
                     (''opacity'', num 1)]])]"

text \<open>An effect of the IR, and an effect as the claim wants it applied.\<close>

definition irEffect :: "jv \<Rightarrow> bool" where
  "irEffect effect =
     (\<exists>kvs. effect = Obj kvs \<and> irColor (getProp effect ''color'')
             \<and> numeric (getProp effect ''radius''))"

definition goodEffect :: "jv \<Rightarrow> bool" where
  "goodEffect e =
     (getProp e ''visible'' = Bool True \<and> nonNegative (getProp e ''radius'')
      \<and> unitInterval (getProp (getProp e ''color'') ''r'')
      \<and> unitInterval (getProp (getProp e ''color'') ''g'')
      \<and> unitInterval (getProp (getProp e ''color'') ''b'')
      \<and> unitInterval (getProp (getProp e ''color'') ''a''))"

section \<open>Properties of the style-value parsers\<close>

text \<open>
  C3. The direction table maps \<open>to top\<close> to 0 degrees, but the lookup is written
  \<open>map[dir] || 180\<close> and 0 is falsy: for \<open>to top\<close> the code answers 180 degrees, the angle
  of \<open>to bottom\<close>.
\<close>

theorem C3_to_top_is_180:
  "directionToAngle ''to top'' = Num 180 \<and> map_of directionMap ''to top'' = Some (Num 0)"
  by (simp add: directionToAngle_def directionMap_def)

subsection \<open>Matching lemmas\<close>

lemma lit_append [simp]: "lit p (p @ s) = Some s"
  by (simp add: lit_def startsWith_def)

lemma lit_self [simp]: "lit p p = Some []"
  by (simp add: lit_def startsWith_def)

lemma skipWs_append:
  "allSpace w \<Longrightarrow> s = [] \<or> \<not> isSpace (hd s) \<Longrightarrow> skipWs (w @ s) = s"
  unfolding skipWs_def allSpace_def
  by (cases s) (auto simp: dropWhile_append)

lemma numTok_append:
  "isNumTok n \<Longrightarrow> s = [] \<or> \<not> isNumCh (hd s) \<Longrightarrow> numTok (n @ s) = Some (n, s)"
  unfolding numTok_def isNumTok_def
  by (cases s) (auto simp: takeWhile_append dropWhile_append takeWhile_eq_Nil_iff)

lemma numTok_hd: "isNumTok n \<Longrightarrow> \<not> isSpace (hd (n @ s))"
  unfolding isNumTok_def by (cases n) (auto simp: isSpace_def isNumCh_def isDigit_def)

lemma hd_space_or: "allSpace w \<Longrightarrow> \<not> isNumCh c \<Longrightarrow> \<not> isNumCh (hd (w @ c # s))"
  unfolding allSpace_def by (cases w) (auto simp: isSpace_def isNumCh_def isDigit_def)

lemma rgbaTail_none:
  assumes "allSpace w4"
  shows "rgbaTail (w4 @ '')'') = Some None"
proof -
  have "lit '','' (w4 @ '')'') = None"
    using assms by (cases w4) (auto simp: lit_def startsWith_def allSpace_def isSpace_def)
  moreover have "skipWs (w4 @ '')'') = '')''"
    using skipWs_append [OF assms, of "'')''"] by (simp add: isSpace_def)
  ultimately show ?thesis by (simp add: rgbaTail_def)
qed

lemma rgbaTail_some:
  assumes "allSpace w3" "isNumTok n4" "allSpace w4"
  shows "rgbaTail ('','' @ w3 @ n4 @ w4 @ '')'') = Some (Some n4)"
proof -
  have a: "skipWs (w3 @ n4 @ w4 @ '')'') = n4 @ w4 @ '')''"
    using skipWs_append [OF assms(1), of "n4 @ w4 @ '')''"] numTok_hd [OF assms(2)] by simp
  have b: "numTok (n4 @ w4 @ '')'') = Some (n4, w4 @ '')'')"
    using numTok_append [OF assms(2), of "w4 @ '')''"] hd_space_or [OF assms(3), of "CHR '')''" "[]"]
    by (simp add: isNumCh_def isDigit_def)
  have c: "skipWs (w4 @ '')'') = '')''"
    using skipWs_append [OF assms(3), of "'')''"] by (simp add: isSpace_def)
  have "lit '','' ('','' @ w3 @ n4 @ w4 @ '')'') = Some (w3 @ n4 @ w4 @ '')'')"
    by (rule lit_append)
  then show ?thesis
    by (simp add: rgbaTail_def a b c)
qed

lemma rgbaTail_alpha:
  assumes "allSpace w4" "case alpha of None \<Rightarrow> True | Some (w3, n4) \<Rightarrow> allSpace w3 \<and> isNumTok n4"
  shows "rgbaTail ((case alpha of None \<Rightarrow> [] | Some (w3, n4) \<Rightarrow> '','' @ w3 @ n4) @ w4 @ '')'')
         = Some (map_option snd alpha)"
proof (cases alpha)
  case None
  then show ?thesis using rgbaTail_none [OF assms(1)] by simp
next
  case (Some a)
  obtain w3 n4 where "a = (w3, n4)" by (cases a)
  with Some assms show ?thesis using rgbaTail_some [of w3 n4 w4] by simp
qed

lemma num_then_comma:
  assumes "allSpace w" "isNumTok n"
  shows "numTok (skipWs (w @ n @ '','' @ s)) = Some (n, '','' @ s)"
proof -
  have "skipWs (w @ n @ '','' @ s) = n @ '','' @ s"
    using skipWs_append [OF assms(1), of "n @ '','' @ s"] numTok_hd [OF assms(2)] by simp
  moreover have "numTok (n @ '','' @ s) = Some (n, '','' @ s)"
    using numTok_append [OF assms(2), of "'','' @ s"] by (simp add: isNumCh_def isDigit_def)
  ultimately show ?thesis by simp
qed

lemma num_then_tail:
  assumes "allSpace w" "isNumTok n" "allSpace w4"
  shows "numTok (skipWs (w @ n @ (case alpha of None \<Rightarrow> [] | Some (w3, n4) \<Rightarrow> '','' @ w3 @ n4) @ w4 @ '')''))
         = Some (n, (case alpha of None \<Rightarrow> [] | Some (w3, n4) \<Rightarrow> '','' @ w3 @ n4) @ w4 @ '')'')"
proof -
  let ?t = "(case alpha of None \<Rightarrow> [] | Some (w3, n4) \<Rightarrow> '','' @ w3 @ n4) @ w4 @ '')''"
  have "skipWs (w @ n @ ?t) = n @ ?t"
    using skipWs_append [OF assms(1), of "n @ ?t"] numTok_hd [OF assms(2)] by simp
  moreover have "\<not> isNumCh (hd ?t)"
  proof (cases alpha)
    case None
    then show ?thesis using hd_space_or [OF assms(3), of "CHR '')''" "[]"]
      by (simp add: isNumCh_def isDigit_def)
  next
    case (Some a)
    then show ?thesis by (cases a) (simp add: isNumCh_def isDigit_def)
  qed
  ultimately show ?thesis using numTok_append [OF assms(2), of ?t] by simp
qed

lemma rgbaBody_ok:
  assumes "allSpace w0" "isNumTok n1" "allSpace w1" "isNumTok n2" "allSpace w2" "isNumTok n3"
    "allSpace w4" "case alpha of None \<Rightarrow> True | Some (w3, n4) \<Rightarrow> allSpace w3 \<and> isNumTok n4"
  shows "rgbaBody (''('' @ w0 @ n1 @ '','' @ w1 @ n2 @ '','' @ w2 @ n3 @
            (case alpha of None \<Rightarrow> [] | Some (w3, n4) \<Rightarrow> '','' @ w3 @ n4) @ w4 @ '')'')
         = Some (n1, n2, n3, map_option snd alpha)"
proof -
  let ?t = "(case alpha of None \<Rightarrow> [] | Some (w3, n4) \<Rightarrow> '','' @ w3 @ n4) @ w4 @ '')''"
  have 1: "numTok (skipWs (w0 @ n1 @ '','' @ w1 @ n2 @ '','' @ w2 @ n3 @ ?t))
            = Some (n1, '','' @ w1 @ n2 @ '','' @ w2 @ n3 @ ?t)"
    by (rule num_then_comma [OF assms(1,2)])
  have 2: "numTok (skipWs (w1 @ n2 @ '','' @ w2 @ n3 @ ?t)) = Some (n2, '','' @ w2 @ n3 @ ?t)"
    by (rule num_then_comma [OF assms(3,4)])
  have 3: "numTok (skipWs (w2 @ n3 @ ?t)) = Some (n3, ?t)"
    by (rule num_then_tail [OF assms(5,6,7)])
  have 4: "rgbaTail ?t = Some (map_option snd alpha)"
    by (rule rgbaTail_alpha [OF assms(7,8)])
  have l0: "lit ''('' (''('' @ w0 @ n1 @ '','' @ w1 @ n2 @ '','' @ w2 @ n3 @ ?t)
            = Some (w0 @ n1 @ '','' @ w1 @ n2 @ '','' @ w2 @ n3 @ ?t)"
    by (rule lit_append)
  have l1: "lit '','' ('','' @ w1 @ n2 @ '','' @ w2 @ n3 @ ?t) = Some (w1 @ n2 @ '','' @ w2 @ n3 @ ?t)"
    by (rule lit_append)
  have l2: "lit '','' ('','' @ w2 @ n3 @ ?t) = Some (w2 @ n3 @ ?t)"
    by (rule lit_append)
  show ?thesis
    unfolding rgbaBody_def l0 option.case 1 prod.case l1 2 l2 3 4 by simp
qed

lemma rgbaAt_notation:
  assumes "allSpace w0" "isNumTok n1" "allSpace w1" "isNumTok n2" "allSpace w2" "isNumTok n3"
    "allSpace w4" "case alpha of None \<Rightarrow> True | Some (w3, n4) \<Rightarrow> allSpace w3 \<and> isNumTok n4"
  shows "rgbaAt (rgbNotation withA w0 n1 w1 n2 w2 n3 alpha w4) = Some (n1, n2, n3, map_option snd alpha)"
proof -
  let ?b = "''('' @ w0 @ n1 @ '','' @ w1 @ n2 @ '','' @ w2 @ n3 @
            (case alpha of None \<Rightarrow> [] | Some (w3, n4) \<Rightarrow> '','' @ w3 @ n4) @ w4 @ '')''"
  have body: "rgbaBody ?b = Some (n1, n2, n3, map_option snd alpha)"
    by (rule rgbaBody_ok [OF assms])
  show ?thesis
  proof (cases withA)
    case True
    have "lit ''rgb'' (''rgb'' @ ''a'' @ ?b) = Some (''a'' @ ?b)" by (rule lit_append)
    moreover have "lit ''a'' (''a'' @ ?b) = Some ?b" by (rule lit_append)
    moreover have "rgbNotation withA w0 n1 w1 n2 w2 n3 alpha w4 = ''rgb'' @ ''a'' @ ?b"
      using True by (simp add: rgbNotation_def)
    ultimately show ?thesis using body by (simp add: rgbaAt_def)
  next
    case False
    have "lit ''rgb'' (''rgb'' @ ?b) = Some ?b" by (rule lit_append)
    moreover have "lit ''a'' ?b = None" by (simp add: lit_def startsWith_def)
    moreover have "rgbNotation withA w0 n1 w1 n2 w2 n3 alpha w4 = ''rgb'' @ ?b"
      using False by (simp add: rgbNotation_def)
    ultimately show ?thesis using body by (simp add: rgbaAt_def)
  qed
qed

lemma searchRgba_head: "rgbaAt s = Some m \<Longrightarrow> searchRgba s = Some m"
  by (cases s) auto

lemma searchRgba_None_iff:
  "searchRgba s = None \<longleftrightarrow> (\<forall>i \<le> length s. rgbaAt (drop i s) = None)"
proof (induction s)
  case Nil
  then show ?case by simp
next
  case (Cons c s)
  show ?case
  proof
    assume h: "searchRgba (c # s) = None"
    then have a: "rgbaAt (c # s) = None" and b: "searchRgba s = None"
      by (auto split: option.splits)
    show "\<forall>i \<le> length (c # s). rgbaAt (drop i (c # s)) = None"
    proof (intro allI impI)
      fix i assume "i \<le> length (c # s)"
      then show "rgbaAt (drop i (c # s)) = None"
        using a b Cons.IH by (cases i) auto
    qed
  next
    assume h: "\<forall>i \<le> length (c # s). rgbaAt (drop i (c # s)) = None"
    then have a: "rgbaAt (c # s) = None" by (metis drop0 le0)
    have "\<forall>i \<le> length s. rgbaAt (drop i s) = None"
    proof (intro allI impI)
      fix i assume "i \<le> length s"
      then show "rgbaAt (drop i s) = None" using h [rule_format, of "Suc i"] by simp
    qed
    then show "searchRgba (c # s) = None" using a Cons.IH by simp
  qed
qed

lemma parseColor_notation:
  assumes "allSpace w0" "isNumTok n1" "allSpace w1" "isNumTok n2" "allSpace w2" "isNumTok n3"
    "allSpace w4" "case alpha of None \<Rightarrow> True | Some (w3, n4) \<Rightarrow> allSpace w3 \<and> isNumTok n4"
    and "s = rgbNotation withA w0 n1 w1 n2 w2 n3 alpha w4"
    and "s \<noteq> ''rgba(0, 0, 0, 0)''"
  shows "parseColor s =
           Some \<lparr> col_r = jdiv (parseFloat n1) (Num 255),
                  col_g = jdiv (parseFloat n2) (Num 255),
                  col_b = jdiv (parseFloat n3) (Num 255),
                  col_a = (case alpha of None \<Rightarrow> Num 1 | Some (w3, n4) \<Rightarrow> parseFloat n4) \<rparr>"
proof -
  have m: "searchRgba s = Some (n1, n2, n3, map_option snd alpha)"
    using rgbaAt_notation [OF assms(1-8), of withA] assms(9) by (simp add: searchRgba_head)
  have ne: "s \<noteq> []" "s \<noteq> ''transparent''"
    using assms(9) by (auto simp: rgbNotation_def)
  show ?thesis
    using m ne assms(10) by (cases alpha) (auto simp: parseColor_def)
qed

lemma parseColor_None_iff:
  "parseColor s = None \<longleftrightarrow>
     s = [] \<or> s = ''transparent'' \<or> s = ''rgba(0, 0, 0, 0)'' \<or>
     (\<forall>i \<le> length s. rgbaAt (drop i s) = None)"
  unfolding searchRgba_None_iff [symmetric]
  by (auto simp: parseColor_def split: option.splits)

subsection \<open>Splitting lemmas\<close>




subsection \<open>Evaluations on concrete inputs\<close>

lemma parseFloat_examples:
  "parseFloat ''255'' = Num 255" "parseFloat ''128'' = Num 128" "parseFloat ''0'' = Num 0"
  "parseFloat ''0.5'' = Num (1 / 2)" "parseFloat ''90'' = Num 90"
  by code_simp+

lemma shape_examples:
  "allSpace []" "allSpace '' ''" "isNumTok ''255''" "isNumTok ''128''" "isNumTok ''0''"
  "isNumTok ''0.5''"
  by code_simp+

text \<open>
  C1 (counterexample). The guard of \<open>parseColor\<close> compares with the one string
  \<open>rgba(0, 0, 0, 0)\<close>, written as computed styles write it; fully transparent black
  written without the spaces is parsed like any other color and is not \<open>null\<close>.
\<close>

theorem C1_counterexample:
  "parseColor ''rgba(0,0,0,0)'' =
     Some \<lparr> col_r = Num 0, col_g = Num 0, col_b = Num 0, col_a = Num 0 \<rparr>"
  by code_simp

text \<open>
  C1 (amended). A string of the \<open>rgb()\<close>/\<open>rgba()\<close> shape other than the exact string
  \<open>rgba(0, 0, 0, 0)\<close> is parsed to the channels as written divided by 255 and the alpha
  as written, 1 when the alpha component is omitted. \<open>parseColor\<close> returns \<open>null\<close> for
  \<open>transparent\<close> and for the exact string \<open>rgba(0, 0, 0, 0)\<close>; in general it returns
  \<open>null\<close> exactly for the empty string, these two strings, and the strings in which the
  functional notation matches at no position.
\<close>

theorem C1_parseColor:
  "(allSpace w0 \<and> isNumTok n1 \<and> allSpace w1 \<and> isNumTok n2 \<and> allSpace w2 \<and> isNumTok n3 \<and>
    allSpace w4 \<and> (case alpha of None \<Rightarrow> True | Some (w3, n4) \<Rightarrow> allSpace w3 \<and> isNumTok n4) \<and>
    rgbNotation withA w0 n1 w1 n2 w2 n3 alpha w4 \<noteq> ''rgba(0, 0, 0, 0)''
    \<longrightarrow> parseColor (rgbNotation withA w0 n1 w1 n2 w2 n3 alpha w4) =
          Some \<lparr> col_r = jdiv (parseFloat n1) (Num 255),
                 col_g = jdiv (parseFloat n2) (Num 255),
                 col_b = jdiv (parseFloat n3) (Num 255),
                 col_a = (case alpha of None \<Rightarrow> Num 1 | Some (w3, n4) \<Rightarrow> parseFloat n4) \<rparr>)
   \<and> parseColor ''transparent'' = None
   \<and> parseColor ''rgba(0, 0, 0, 0)'' = None
   \<and> (parseColor s = None \<longleftrightarrow>
        s = [] \<or> s = ''transparent'' \<or> s = ''rgba(0, 0, 0, 0)'' \<or>
        (\<forall>i \<le> length s. rgbaAt (drop i s) = None))"
proof (intro conjI impI)
  assume h: "allSpace w0 \<and> isNumTok n1 \<and> allSpace w1 \<and> isNumTok n2 \<and> allSpace w2 \<and> isNumTok n3 \<and>
    allSpace w4 \<and> (case alpha of None \<Rightarrow> True | Some (w3, n4) \<Rightarrow> allSpace w3 \<and> isNumTok n4) \<and>
    rgbNotation withA w0 n1 w1 n2 w2 n3 alpha w4 \<noteq> ''rgba(0, 0, 0, 0)''"
  then show "parseColor (rgbNotation withA w0 n1 w1 n2 w2 n3 alpha w4) =
          Some \<lparr> col_r = jdiv (parseFloat n1) (Num 255),
                 col_g = jdiv (parseFloat n2) (Num 255),
                 col_b = jdiv (parseFloat n3) (Num 255),
                 col_a = (case alpha of None \<Rightarrow> Num 1 | Some (w3, n4) \<Rightarrow> parseFloat n4) \<rparr>"
    using parseColor_notation [of w0 n1 w1 n2 w2 n3 w4 alpha _ withA] by blast
next
  show "parseColor ''transparent'' = None" by (simp add: parseColor_def)
next
  show "parseColor ''rgba(0, 0, 0, 0)'' = None" by (simp add: parseColor_def)
next
  show "parseColor s = None \<longleftrightarrow>
        s = [] \<or> s = ''transparent'' \<or> s = ''rgba(0, 0, 0, 0)'' \<or>
        (\<forall>i \<le> length s. rgbaAt (drop i s) = None)"
    by (rule parseColor_None_iff)
qed

theorem C1_parseColor_witness:
  "parseColor ''rgba(255, 128, 0, 0.5)'' =
     Some \<lparr> col_r = Num 1, col_g = Num (128 / 255), col_b = Num 0, col_a = Num (1 / 2) \<rparr>
   \<and> parseColor ''rgb(255,128,0)'' =
     Some \<lparr> col_r = Num 1, col_g = Num (128 / 255), col_b = Num 0, col_a = Num 1 \<rparr>"
proof
  show "parseColor ''rgba(255, 128, 0, 0.5)'' =
     Some \<lparr> col_r = Num 1, col_g = Num (128 / 255), col_b = Num 0, col_a = Num (1 / 2) \<rparr>"
    using C1_parseColor [of "[]" "''255''" "'' ''" "''128''" "'' ''" "''0''" "[]"
        "Some ('' '', ''0.5'')" True]
    by (simp add: shape_examples parseFloat_examples rgbNotation_def)
  show "parseColor ''rgb(255,128,0)'' =
     Some \<lparr> col_r = Num 1, col_g = Num (128 / 255), col_b = Num 0, col_a = Num 1 \<rparr>"
    using C1_parseColor [of "[]" "''255''" "[]" "''128''" "[]" "''0''" "[]" None False]
    by (simp add: shape_examples parseFloat_examples rgbNotation_def)
qed




lemma angle_example: "angleMatch (trim ''90deg'') = Some ''90''"
  by code_simp







text \<open>
  With the colors in functional notation, \<open>parseGradient\<close> still returns \<open>null\<close>: its
  pattern \<open>[^)]+\<close> ends the argument list at the first closing parenthesis, here the one
  of the first color.
\<close>

lemma rgb_search:
  "searchFn ''linear-gradient(''
     ''linear-gradient(90deg, rgb(255, 0, 0) 0%, rgb(0, 0, 255) 100%)'' =
     Some ''90deg, rgb(255, 0, 0''"
  by code_simp

lemma rgb_parts: "splitGradientParts ''90deg, rgb(255, 0, 0'' = [''90deg'', '' rgb(255, 0, 0'']"
  by code_simp

lemma rgb_stops: "collectStops ['' rgb(255, 0, 0''] 0 (Suc 0) [] = []"
  by code_simp

lemma rgb_linear: "parseLinearGradient ''90deg, rgb(255, 0, 0'' = None"
  unfolding parseLinearGradient_def rgb_parts
  by (simp add: rgb_stops angle_example Let_def del: collectStops.simps)

lemma parseGradient_truncates:
  "parseGradient ''linear-gradient(90deg, rgb(255, 0, 0) 0%, rgb(0, 0, 255) 100%)'' = None"
  unfolding parseGradient_def rgb_search by (simp add: rgb_linear)



subsection \<open>The loop of parseBoxShadow\<close>

lemma shadowLoop_map_filter:
  "shadowLoop shadows effects = effects @ List.map_filter shadowClause shadows"
  by (induction shadows arbitrary: effects) (auto split: option.splits)

lemma parseBoxShadow_map_filter:
  "parseBoxShadow s =
     List.map_filter shadowClause
       (if s = [] \<or> s = ''none'' then [] else splitGradientParts s)"
  by (simp add: parseBoxShadow_def shadowLoop_map_filter)

lemma shadowClause_None_iff: "(shadowClause c = None) = (length (clauseNums c) < 2)"
  by (cases "clauseParts c") (auto simp: shadowClause_def clauseNums_def Let_def)

lemma shadowClause_visible: "shadowClause c = Some e \<Longrightarrow> eff_visible e"
  by (cases "clauseParts c") (auto simp: shadowClause_def Let_def split: if_splits)

lemma parseBoxShadow_visible: "e \<in> set (parseBoxShadow s) \<Longrightarrow> eff_visible e"
  unfolding parseBoxShadow_map_filter
  by (auto simp: map_filter_def dest: shadowClause_visible)

text \<open>
  C4 (counterexample). In the second clause of the claim's string the offsets are written
  \<open>0\<close>, without unit; only \<open>10px\<close> is a length token, the clause is dropped and one
  effect comes back, not two.
\<close>

theorem C4_counterexample:
  "parseBoxShadow ''2px 4px 6px rgba(0,0,0,0.5), inset 0 0 10px red'' =
     [\<lparr> eff_type = DROP_SHADOW,
        eff_color = \<lparr> col_r = Num 0, col_g = Num 0, col_b = Num 0, col_a = Num (1 / 2) \<rparr>,
        eff_offset = \<lparr> pt_x = Num 2, pt_y = Num 4 \<rparr>,
        eff_radius = Num 6, eff_spread = Num 0, eff_visible = True \<rparr>]"
  by code_simp

lemma shadow_example:
  "parseBoxShadow ''2px 4px 6px rgba(0,0,0,0.5), inset 0px 0px 10px red'' =
     [\<lparr> eff_type = DROP_SHADOW,
        eff_color = \<lparr> col_r = Num 0, col_g = Num 0, col_b = Num 0, col_a = Num (1 / 2) \<rparr>,
        eff_offset = \<lparr> pt_x = Num 2, pt_y = Num 4 \<rparr>,
        eff_radius = Num 6, eff_spread = Num 0, eff_visible = True \<rparr>,
      \<lparr> eff_type = INNER_SHADOW,
        eff_color = \<lparr> col_r = Num 0, col_g = Num 0, col_b = Num 0, col_a = Num (1 / 4) \<rparr>,
        eff_offset = \<lparr> pt_x = Num 0, pt_y = Num 0 \<rparr>,
        eff_radius = Num 10, eff_spread = Num 0, eff_visible = True \<rparr>]"
  by code_simp

text \<open>
  C4 (amended). With every length written with its unit,
  \<open>2px 4px 6px rgba(0,0,0,0.5), inset 0px 0px 10px red\<close> yields exactly two effects: a
  \<open>DROP_SHADOW\<close> of offset (2, 4) and radius 6, then an \<open>INNER_SHADOW\<close> of offset (0, 0)
  and radius 10. For every input the result is, in order, the effects of the clauses that
  have at least two length tokens (a number followed by \<open>px\<close>); a clause with fewer is
  skipped, and nothing in the function can fail.
\<close>

theorem C4_parseBoxShadow:
  "parseBoxShadow ''2px 4px 6px rgba(0,0,0,0.5), inset 0px 0px 10px red'' =
     [\<lparr> eff_type = DROP_SHADOW,
        eff_color = \<lparr> col_r = Num 0, col_g = Num 0, col_b = Num 0, col_a = Num (1 / 2) \<rparr>,
        eff_offset = \<lparr> pt_x = Num 2, pt_y = Num 4 \<rparr>,
        eff_radius = Num 6, eff_spread = Num 0, eff_visible = True \<rparr>,
      \<lparr> eff_type = INNER_SHADOW,
        eff_color = \<lparr> col_r = Num 0, col_g = Num 0, col_b = Num 0, col_a = Num (1 / 4) \<rparr>,
        eff_offset = \<lparr> pt_x = Num 0, pt_y = Num 0 \<rparr>,
        eff_radius = Num 10, eff_spread = Num 0, eff_visible = True \<rparr>]
   \<and> parseBoxShadow s =
       List.map_filter shadowClause
         (if s = [] \<or> s = ''none'' then [] else splitGradientParts s)
   \<and> ((shadowClause c = None) = (length (clauseNums c) < 2))"
  using shadow_example parseBoxShadow_map_filter [of s] shadowClause_None_iff [of c] by blast

lemma clause_examples:
  "clauseNums '' inset 0 0 10px red'' = [''10px'']"
  "splitGradientParts ''2px 4px 6px rgba(0,0,0,0.5), inset 0 0 10px red'' =
     [''2px 4px 6px rgba(0,0,0,0.5)'', '' inset 0 0 10px red'']"
  by code_simp+

theorem C4_parseBoxShadow_witness:
  "length (clauseNums '' inset 0 0 10px red'') < 2 \<and> shadowClause '' inset 0 0 10px red'' = None
   \<and> parseBoxShadow ''2px 4px 6px rgba(0,0,0,0.5), inset 0 0 10px red'' =
       List.map_filter shadowClause [''2px 4px 6px rgba(0,0,0,0.5)'', '' inset 0 0 10px red'']"
  using C4_parseBoxShadow [of "''2px 4px 6px rgba(0,0,0,0.5), inset 0 0 10px red''"
      "'' inset 0 0 10px red''"]
  by (simp add: clause_examples)

subsection \<open>clamp\<close>

lemma numeric_cases:
  assumes "numeric v"
  obtains "v = Undefined" | "v = Null" | x where "v = num x"
  using assms unfolding numeric_def by blast

lemma clamp_num: "clamp h (num x) = num (min (max x 0) 1)"
  by (simp add: clamp_def mathMin_def mathMax_def)

lemma clamp_or_numeric:
  assumes "numeric v"
  shows "unitInterval (clamp h (jsOr v (num 0)))"
  using assms by (rule numeric_cases) (auto simp: jsOr_def clamp_num unitInterval_def)

lemma clamp_alpha_numeric:
  assumes "numeric v"
  shows "unitInterval (if v \<noteq> Undefined then clamp h v else num 1)"
  using assms
  by (rule numeric_cases)
     (auto simp: clamp_num clamp_def mathMin_def mathMax_def unitInterval_def)

lemma clamp_unit: "unitInterval v \<Longrightarrow> clamp h v = v"
  by (auto simp: clamp_num unitInterval_def)

lemma clamp_or_unit: "unitInterval v \<Longrightarrow> clamp h (jsOr v (num 0)) = v"
  by (auto simp: jsOr_def clamp_num unitInterval_def)

lemma unit_not_undefined: "unitInterval v \<Longrightarrow> v \<noteq> Undefined"
  by (auto simp: unitInterval_def)

lemma irColor_numeric:
  assumes "irColor c"
  shows "numeric (getProp (jsOr c (Obj [])) ''r'')" "numeric (getProp (jsOr c (Obj [])) ''g'')"
    "numeric (getProp (jsOr c (Obj [])) ''b'')" "numeric (getProp (jsOr c (Obj [])) ''a'')"
  using assms by (auto simp: irColor_def jsOr_def numeric_def)

subsection \<open>One paint, sanitized twice\<close>

lemma sanitizeFill_solid:
  assumes "irSolid fill"
  shows "\<exists>r g b opacity. sanitizeFill h fill = Some (solidOut r g b opacity)
           \<and> unitInterval r \<and> unitInterval g \<and> unitInterval b \<and> unitInterval opacity"
proof -
  from assms obtain kvs where f: "fill = Obj kvs" "getProp fill ''type'' = Str ''SOLID''"
    "irColor (getProp fill ''color'')" "numeric (getProp fill ''opacity'')"
    unfolding irSolid_def by blast
  let ?c = "jsOr (getProp fill ''color'') (Obj [])"
  have "sanitizeFill h fill =
          Some (solidOut (clamp h (jsOr (getProp ?c ''r'') (num 0)))
                         (clamp h (jsOr (getProp ?c ''g'') (num 0)))
                         (clamp h (jsOr (getProp ?c ''b'') (num 0)))
                         (if getProp fill ''opacity'' \<noteq> Undefined
                          then clamp h (getProp fill ''opacity'') else num 1))"
    using f(1,2) by (simp add: sanitizeFill_def solidOut_def nullish_def Let_def)
  then show ?thesis
    using clamp_or_numeric [OF irColor_numeric(1) [OF f(3)], of h]
      clamp_or_numeric [OF irColor_numeric(2) [OF f(3)], of h]
      clamp_or_numeric [OF irColor_numeric(3) [OF f(3)], of h]
      clamp_alpha_numeric [OF f(4), of h]
    by blast
qed

lemma sanitizeFill_solidOut:
  assumes "unitInterval r" "unitInterval g" "unitInterval b" "unitInterval opacity"
  shows "sanitizeFill h (solidOut r g b opacity) = Some (solidOut r g b opacity)"
  using assms unit_not_undefined [OF assms(4)]
  by (simp add: sanitizeFill_def solidOut_def nullish_def jsOr_def [of "Obj _"] clamp_or_unit
      clamp_unit)

lemma sanitizeStop_ir:
  assumes "irStop stop"
  shows "\<exists>r g b a p. sanitizeStop h stop = Some (stopOut r g b a p)
           \<and> unitInterval r \<and> unitInterval g \<and> unitInterval b \<and> unitInterval a
           \<and> unitInterval p"
proof -
  from assms obtain kvs where f: "stop = Obj kvs" "irColor (getProp stop ''color'')"
    "numeric (getProp stop ''position'')"
    unfolding irStop_def by blast
  let ?c = "jsOr (getProp stop ''color'') (Obj [])"
  have "sanitizeStop h stop =
          Some (stopOut (clamp h (jsOr (getProp ?c ''r'') (num 0)))
                        (clamp h (jsOr (getProp ?c ''g'') (num 0)))
                        (clamp h (jsOr (getProp ?c ''b'') (num 0)))
                        (if getProp ?c ''a'' \<noteq> Undefined then clamp h (getProp ?c ''a'')
                         else num 1)
                        (clamp h (jsOr (getProp stop ''position'') (num 0))))"
    using f(1) by (simp add: sanitizeStop_def stopOut_def nullish_def Let_def)
  then show ?thesis
    using clamp_or_numeric [OF irColor_numeric(1) [OF f(2)], of h]
      clamp_or_numeric [OF irColor_numeric(2) [OF f(2)], of h]
      clamp_or_numeric [OF irColor_numeric(3) [OF f(2)], of h]
      clamp_alpha_numeric [OF irColor_numeric(4) [OF f(2)], of h]
      clamp_or_numeric [OF f(3), of h]
    by blast
qed

lemma sanitizeStop_stopOut:
  assumes "unitInterval r" "unitInterval g" "unitInterval b" "unitInterval a" "unitInterval p"
  shows "sanitizeStop h (stopOut r g b a p) = Some (stopOut r g b a p)"
  using assms unit_not_undefined [OF assms(4)]
  by (simp add: sanitizeStop_def stopOut_def nullish_def jsOr_def [of "Obj _"] clamp_or_unit
      clamp_unit)

lemma mapThrow_stops:
  assumes "\<forall>st \<in> set stops. irStop st"
  shows "\<exists>ys. mapThrow (sanitizeStop h) stops = Some ys
           \<and> mapThrow (sanitizeStop h) ys = Some ys"
  using assms
proof (induction stops)
  case Nil
  then show ?case by simp
next
  case (Cons st stops)
  then obtain ys where ys: "mapThrow (sanitizeStop h) stops = Some ys"
    "mapThrow (sanitizeStop h) ys = Some ys" by auto
  from Cons.prems obtain r g b a p where
    y: "sanitizeStop h st = Some (stopOut r g b a p)"
    "unitInterval r" "unitInterval g" "unitInterval b" "unitInterval a" "unitInterval p"
    using sanitizeStop_ir [of st h] by auto
  have "sanitizeStop h (stopOut r g b a p) = Some (stopOut r g b a p)"
    by (rule sanitizeStop_stopOut [OF y(2-6)])
  with ys y(1) show ?case by simp
qed

lemma handles_never_throw:
  assumes "irHandles hs"
  shows "\<exists>t. (if truthy hs then handlePositionsToTransform h hs else Some identityTransform)
              = Some t"
proof -
  from assms consider "hs = Undefined"
    | ps where "hs = Arr ps" "length ps < 3"
    | ps where "hs = Arr ps" "3 \<le> length ps" "\<not> nullish (ps ! 0)" "\<not> nullish (ps ! 1)"
        "\<not> nullish (ps ! 2)"
    unfolding irHandles_def by (metis not_le)
  then show ?thesis
  proof cases
    case 1
    then show ?thesis by simp
  next
    case 2
    then show ?thesis by (simp add: handlePositionsToTransform_def jsLt_def)
  next
    case 3
    have "0 < length ps" "1 < length ps" "2 < length ps" using 3(2) by linarith+
    with 3 show ?thesis
      by (simp add: handlePositionsToTransform_def jsLt_def Let_def del: length_greater_0_conv)
  qed
qed

lemma sanitizeFill_gradient:
  assumes "irGradient fill"
  shows "\<exists>ty ys t. sanitizeFill h fill = Some (gradientOut ty ys t)
           \<and> (ty = Str ''GRADIENT_LINEAR'' \<or> ty = Str ''GRADIENT_RADIAL'')
           \<and> mapThrow (sanitizeStop h) ys = Some ys"
proof -
  from assms obtain kvs where f: "fill = Obj kvs"
    "getProp fill ''type'' = Str ''GRADIENT_LINEAR'' \<or> getProp fill ''type'' = Str ''GRADIENT_RADIAL''"
    "getProp fill ''gradientStops'' = Undefined
       \<or> (\<exists>stops. getProp fill ''gradientStops'' = Arr stops \<and> (\<forall>st \<in> set stops. irStop st))"
    "irHandles (getProp fill ''gradientHandlePositions'')"
    unfolding irGradient_def by blast
  obtain stops where st: "jsOr (getProp fill ''gradientStops'') (Arr []) = Arr stops"
    "\<forall>st \<in> set stops. irStop st"
    using f(3) by (auto simp: jsOr_def)
  obtain ys where ys: "mapThrow (sanitizeStop h) stops = Some ys"
    "mapThrow (sanitizeStop h) ys = Some ys"
    using mapThrow_stops [OF st(2)] by blast
  obtain t where t: "(if truthy (getProp fill ''gradientHandlePositions'')
      then handlePositionsToTransform h (getProp fill ''gradientHandlePositions'')
      else Some identityTransform) = Some t"
    using handles_never_throw [OF f(4)] by blast
  have ns: "getProp fill ''type'' \<noteq> Str ''SOLID''" using f(2) by auto
  have "sanitizeFill h fill = Some (gradientOut (getProp fill ''type'') ys t)"
    unfolding sanitizeFill_def st(1) t
    using f(1,2) ns ys(1) by (auto simp: nullish_def gradientOut_def)
  with f(2) ys(2) show ?thesis by blast
qed

lemma sanitizeFill_gradientOut:
  assumes "ty = Str ''GRADIENT_LINEAR'' \<or> ty = Str ''GRADIENT_RADIAL''"
    and "mapThrow (sanitizeStop h) ys = Some ys"
  shows "sanitizeFill h (gradientOut ty ys t) = Some (resetTransform (gradientOut ty ys t))"
  using assms
  by (auto simp: sanitizeFill_def gradientOut_def resetTransform_def nullish_def jsOr_def)

lemma resetTransform_solidOut: "resetTransform (solidOut r g b opacity) = solidOut r g b opacity"
  by (simp add: resetTransform_def solidOut_def)

lemma sanitizeFill_twice:
  assumes "irSolid fill \<or> irGradient fill"
  shows "\<exists>out. sanitizeFill h fill = Some out \<and> sanitizeFill h out = Some (resetTransform out)
           \<and> truthy out \<and> truthy (resetTransform out)
           \<and> (irSolid fill \<longrightarrow> resetTransform out = out)"
proof -
  from assms consider (solid) "irSolid fill" | (grad) "irGradient fill" "\<not> irSolid fill"
    by blast
  then show ?thesis
  proof cases
    case solid
    then obtain r g b opacity where o: "sanitizeFill h fill = Some (solidOut r g b opacity)"
      "unitInterval r" "unitInterval g" "unitInterval b" "unitInterval opacity"
      using sanitizeFill_solid [of fill h] by blast
    have "sanitizeFill h (solidOut r g b opacity) = Some (solidOut r g b opacity)"
      by (rule sanitizeFill_solidOut [OF o(2-5)])
    moreover have "truthy (solidOut r g b opacity)" by (simp add: solidOut_def)
    ultimately show ?thesis using o(1) by (auto simp: resetTransform_solidOut)
  next
    case grad
    then obtain ty ys t where o: "sanitizeFill h fill = Some (gradientOut ty ys t)"
      "ty = Str ''GRADIENT_LINEAR'' \<or> ty = Str ''GRADIENT_RADIAL''"
      "mapThrow (sanitizeStop h) ys = Some ys"
      using sanitizeFill_gradient [of fill h] by blast
    have "sanitizeFill h (gradientOut ty ys t) = Some (resetTransform (gradientOut ty ys t))"
      by (rule sanitizeFill_gradientOut [OF o(2,3)])
    moreover have "truthy (gradientOut ty ys t)" "truthy (resetTransform (gradientOut ty ys t))"
      by (simp_all add: gradientOut_def resetTransform_def)
    ultimately show ?thesis using o(1) grad(2) by auto
  qed
qed

lemma mapThrow_fills_twice:
  assumes "\<forall>f \<in> set fs. irSolid f \<or> irGradient f"
  shows "\<exists>out. mapThrow (sanitizeFill h) fs = Some out
           \<and> mapThrow (sanitizeFill h) out = Some (map resetTransform out)
           \<and> filter truthy out = out
           \<and> filter truthy (map resetTransform out) = map resetTransform out
           \<and> ((\<forall>f \<in> set fs. irSolid f) \<longrightarrow> map resetTransform out = out)"
  using assms
proof (induction fs)
  case Nil
  then show ?case by simp
next
  case (Cons f fs)
  then obtain out where out: "mapThrow (sanitizeFill h) fs = Some out"
    "mapThrow (sanitizeFill h) out = Some (map resetTransform out)"
    "filter truthy out = out"
    "filter truthy (map resetTransform out) = map resetTransform out"
    "(\<forall>f \<in> set fs. irSolid f) \<longrightarrow> map resetTransform out = out"
    by auto
  from Cons.prems obtain o1 where o1: "sanitizeFill h f = Some o1"
    "sanitizeFill h o1 = Some (resetTransform o1)" "truthy o1" "truthy (resetTransform o1)"
    "irSolid f \<longrightarrow> resetTransform o1 = o1"
    using sanitizeFill_twice [of f h] by auto
  show ?case
    by (rule exI [of _ "o1 # out"]) (use out o1 in simp)
qed

text \<open>
  C5 (amended). For every list of solid and gradient paints of the IR (channels,
  opacities and stop positions numbers, in the unit interval or not), the list is
  sanitized without failure, and sanitizing the result again leaves every solid paint and
  the type and stops of every gradient as they are but sets the transform of every
  gradient to the identity matrix: the sanitized gradient carries a
  \<open>gradientTransform\<close> and no \<open>gradientHandlePositions\<close>, from which the second run
  would compute it. A list of solid paints only is a fixed point.
\<close>

theorem C5_sanitize_twice:
  "(\<forall>f \<in> set fs. irSolid f \<or> irGradient f) \<longrightarrow>
   (\<exists>out. sanitizeFills h (Arr fs) = Some (Arr out)
         \<and> sanitizeFills h (Arr out) = Some (Arr (map resetTransform out))
         \<and> ((\<forall>f \<in> set fs. irSolid f) \<longrightarrow> sanitizeFills h (Arr out) = Some (Arr out)))"
proof
  assume "\<forall>f \<in> set fs. irSolid f \<or> irGradient f"
  then obtain out where out: "mapThrow (sanitizeFill h) fs = Some out"
    "mapThrow (sanitizeFill h) out = Some (map resetTransform out)"
    "filter truthy out = out"
    "filter truthy (map resetTransform out) = map resetTransform out"
    "(\<forall>f \<in> set fs. irSolid f) \<longrightarrow> map resetTransform out = out"
    using mapThrow_fills_twice [of fs h] by blast
  have "sanitizeFills h (Arr fs) = Some (Arr out)"
    using out(1,3) by (simp add: sanitizeFills_def isArray_def)
  moreover have "sanitizeFills h (Arr out) = Some (Arr (map resetTransform out))"
    using out(2,4) by (simp add: sanitizeFills_def isArray_def)
  ultimately show "\<exists>out. sanitizeFills h (Arr fs) = Some (Arr out)
         \<and> sanitizeFills h (Arr out) = Some (Arr (map resetTransform out))
         \<and> ((\<forall>f \<in> set fs. irSolid f) \<longrightarrow> sanitizeFills h (Arr out) = Some (Arr out))"
    using out(5) by auto
qed

lemma example_first:
  "sanitizeFills plainHost (Arr [exampleSolid, exampleGradient]) =
     Some (Arr [exampleSolid,
                gradientOut (Str ''GRADIENT_LINEAR'')
                  [stopOut (num 1) (num 0) (num 0) (num 1) (num 0),
                   stopOut (num 0) (num 0) (num 1) (num 1) (num 1)]
                  (Arr [Arr [num 1, num 0.5, num 0], Arr [num 0, num 0.5, num 0.5]])])"
  by code_simp

lemma example_gradient_first:
  "sanitizeFills plainHost (Arr [exampleGradient]) =
     Some (Arr [gradientOut (Str ''GRADIENT_LINEAR'')
                  [stopOut (num 1) (num 0) (num 0) (num 1) (num 0),
                   stopOut (num 0) (num 0) (num 1) (num 1) (num 1)]
                  (Arr [Arr [num 1, num 0.5, num 0], Arr [num 0, num 0.5, num 0.5]])])"
  by code_simp

lemma example_gradient_second:
  "sanitizeFills plainHost
     (Arr [gradientOut (Str ''GRADIENT_LINEAR'')
             [stopOut (num 1) (num 0) (num 0) (num 1) (num 0),
              stopOut (num 0) (num 0) (num 1) (num 1) (num 1)]
             (Arr [Arr [num 1, num 0.5, num 0], Arr [num 0, num 0.5, num 0.5]])]) =
     Some (Arr [gradientOut (Str ''GRADIENT_LINEAR'')
                  [stopOut (num 1) (num 0) (num 0) (num 1) (num 0),
                   stopOut (num 0) (num 0) (num 1) (num 1) (num 1)]
                  identityTransform])"
  by code_simp

text \<open>
  C5 (counterexample). The 90 degree linear gradient, every channel and position in the
  unit interval: the first sanitization computes the transform of its handles, the second,
  applied to that output, returns the identity transform instead.
\<close>

theorem C5_counterexample:
  "sanitizeFills plainHost (Arr [exampleGradient]) =
     Some (Arr [gradientOut (Str ''GRADIENT_LINEAR'')
                  [stopOut (num 1) (num 0) (num 0) (num 1) (num 0),
                   stopOut (num 0) (num 0) (num 1) (num 1) (num 1)]
                  (Arr [Arr [num 1, num 0.5, num 0], Arr [num 0, num 0.5, num 0.5]])])
   \<and> sanitizeFills plainHost
       (Arr [gradientOut (Str ''GRADIENT_LINEAR'')
               [stopOut (num 1) (num 0) (num 0) (num 1) (num 0),
                stopOut (num 0) (num 0) (num 1) (num 1) (num 1)]
               (Arr [Arr [num 1, num 0.5, num 0], Arr [num 0, num 0.5, num 0.5]])])
     \<noteq> Some (Arr [gradientOut (Str ''GRADIENT_LINEAR'')
                  [stopOut (num 1) (num 0) (num 0) (num 1) (num 0),
                   stopOut (num 0) (num 0) (num 1) (num 1) (num 1)]
                  (Arr [Arr [num 1, num 0.5, num 0], Arr [num 0, num 0.5, num 0.5]])])"
  unfolding example_gradient_first example_gradient_second
  by (simp add: gradientOut_def identityTransform_def)

lemma numeric_simps [simp]: "numeric (num x)" "numeric Undefined" "numeric Null"
  by (simp_all add: numeric_def)

lemma example_ir: "irSolid exampleSolid" "irGradient exampleGradient"
  by (simp_all add: irSolid_def irGradient_def exampleSolid_def exampleGradient_def irColor_def
      irStop_def irHandles_def nullish_def)

theorem C5_sanitize_twice_witness:
  "irSolid exampleSolid \<and> irGradient exampleGradient
   \<and> sanitizeFills plainHost
       (Arr [exampleSolid,
             gradientOut (Str ''GRADIENT_LINEAR'')
               [stopOut (num 1) (num 0) (num 0) (num 1) (num 0),
                stopOut (num 0) (num 0) (num 1) (num 1) (num 1)]
               (Arr [Arr [num 1, num 0.5, num 0], Arr [num 0, num 0.5, num 0.5]])]) =
     Some (Arr [exampleSolid,
                gradientOut (Str ''GRADIENT_LINEAR'')
                  [stopOut (num 1) (num 0) (num 0) (num 1) (num 0),
                   stopOut (num 0) (num 0) (num 1) (num 1) (num 1)]
                  identityTransform])"
proof -
  from C5_sanitize_twice [of "[exampleSolid, exampleGradient]" plainHost]
  obtain out where out: "sanitizeFills plainHost (Arr [exampleSolid, exampleGradient]) = Some (Arr out)"
    "sanitizeFills plainHost (Arr out) = Some (Arr (map resetTransform out))"
    using example_ir by auto
  from out(1) have "out = [exampleSolid,
                gradientOut (Str ''GRADIENT_LINEAR'')
                  [stopOut (num 1) (num 0) (num 0) (num 1) (num 0),
                   stopOut (num 0) (num 0) (num 1) (num 1) (num 1)]
                  (Arr [Arr [num 1, num 0.5, num 0], Arr [num 0, num 0.5, num 0.5]])]"
    unfolding example_first by simp
  with out(2) show ?thesis
    using example_ir
    by (simp add: resetTransform_def gradientOut_def exampleSolid_def)
qed

subsection \<open>Fills of unrecognised type\<close>

lemma sanitizeFills_not_array: "\<not> isArray fills \<Longrightarrow> sanitizeFills h fills = Some (Arr [])"
  by (simp add: sanitizeFills_def)

lemma sanitizeFill_unrecognised:
  "\<not> nullish fill \<Longrightarrow> \<not> recognised fill \<Longrightarrow> sanitizeFill h fill = Some fill"
  by (simp add: sanitizeFill_def recognised_def)

lemma mapThrow_unrecognised:
  "\<forall>f \<in> set xs. \<not> nullish f \<and> \<not> recognised f \<Longrightarrow> mapThrow (sanitizeFill h) xs = Some xs"
  by (induction xs) (simp_all add: sanitizeFill_unrecognised)

text \<open>
  C10 (counterexample). \<open>sanitizeFills\<close> is not total on arrays: the callback reads
  \<open>fill.type\<close> first, which throws on an element that is \<open>null\<close>.
\<close>

theorem C10_counterexample: "sanitizeFills plainHost (Arr [Null]) = None"
  by code_simp

text \<open>
  C10 (amended). For a missing or non-array argument \<open>sanitizeFills\<close> returns the empty
  list. In an array, an element that is neither \<open>null\<close> nor \<open>undefined\<close> and whose type
  is none of \<open>SOLID\<close>, \<open>GRADIENT_LINEAR\<close>, \<open>GRADIENT_RADIAL\<close> is returned by the callback
  as it is, without clamping or normalization; an array of such elements is returned
  without failure, with its falsy elements (\<open>0\<close>, the empty string, \<open>false\<close>) removed by
  the final \<open>filter(Boolean)\<close> and the others unchanged.
\<close>

theorem C10_sanitizeFills:
  "(\<not> isArray fills \<longrightarrow> sanitizeFills h fills = Some (Arr []))
   \<and> (\<not> nullish fill \<and> \<not> recognised fill \<longrightarrow> sanitizeFill h fill = Some fill)
   \<and> ((\<forall>f \<in> set xs. \<not> nullish f \<and> \<not> recognised f)
        \<longrightarrow> sanitizeFills h (Arr xs) = Some (Arr (filter truthy xs)))"
  using sanitizeFills_not_array [of fills h] sanitizeFill_unrecognised [of fill h]
    mapThrow_unrecognised [of xs h]
  by (auto simp: sanitizeFills_def isArray_def)

theorem C10_sanitizeFills_witness:
  "sanitizeFills plainHost Undefined = Some (Arr [])
   \<and> sanitizeFills plainHost (Obj [(''length'', num 1)]) = Some (Arr [])
   \<and> sanitizeFill plainHost exampleImage = Some exampleImage
   \<and> sanitizeFills plainHost (Arr [exampleImage, num 0, Str ''x'']) =
       Some (Arr [exampleImage, Str ''x''])"
proof -
  have a: "\<not> nullish exampleImage" "\<not> recognised exampleImage" "truthy exampleImage"
    by (simp_all add: exampleImage_def nullish_def recognised_def)
  have b: "\<not> nullish (num 0)" "\<not> recognised (num 0)" "\<not> nullish (Str ''x'')"
    "\<not> recognised (Str ''x'')"
    by (simp_all add: nullish_def recognised_def)
  show ?thesis
    using C10_sanitizeFills [of Undefined plainHost exampleImage "[exampleImage, num 0, Str ''x'']"]
      C10_sanitizeFills [of "Obj [(''length'', num 1)]" plainHost exampleImage "[]"] a b
    by (simp add: isArray_def)
qed

subsection \<open>Effects\<close>

lemma sanitizeEffect_ir:
  assumes "irEffect effect"
  shows "\<exists>e. sanitizeEffect h effect = Some e \<and> goodEffect e"
proof -
  from assms obtain kvs where f: "effect = Obj kvs" "irColor (getProp effect ''color'')"
    "numeric (getProp effect ''radius'')"
    unfolding irEffect_def by blast
  let ?c = "jsOr (getProp effect ''color'') (Obj [])"
  have r: "nonNegative (mathMax h (jsOr (getProp effect ''radius'') (num 0)) (num 0))"
    using f(3) by (rule numeric_cases) (auto simp: jsOr_def mathMax_def nonNegative_def)
  have "\<not> nullish effect" using f(1) by (simp add: nullish_def)
  then obtain e where e: "sanitizeEffect h effect = Some e"
      "getProp e ''visible'' = Bool True"
      "getProp e ''radius'' = mathMax h (jsOr (getProp effect ''radius'') (num 0)) (num 0)"
      "getProp (getProp e ''color'') ''r'' = clamp h (jsOr (getProp ?c ''r'') (num 0))"
      "getProp (getProp e ''color'') ''g'' = clamp h (jsOr (getProp ?c ''g'') (num 0))"
      "getProp (getProp e ''color'') ''b'' = clamp h (jsOr (getProp ?c ''b'') (num 0))"
      "getProp (getProp e ''color'') ''a'' =
            (if getProp ?c ''a'' \<noteq> Undefined then clamp h (getProp ?c ''a'') else num 1)"
    by (simp add: sanitizeEffect_def Let_def)
  have "goodEffect e"
    unfolding goodEffect_def e(2-7)
    using r clamp_or_numeric [OF irColor_numeric(1) [OF f(2)], of h]
      clamp_or_numeric [OF irColor_numeric(2) [OF f(2)], of h]
      clamp_or_numeric [OF irColor_numeric(3) [OF f(2)], of h]
      clamp_alpha_numeric [OF irColor_numeric(4) [OF f(2)], of h]
    by simp
  with e(1) show ?thesis by blast
qed

lemma mapThrow_effects:
  assumes "\<forall>e \<in> set effects. irEffect e"
  shows "\<exists>es. mapThrow (sanitizeEffect h) effects = Some es \<and> (\<forall>e \<in> set es. goodEffect e)"
  using assms
proof (induction effects)
  case Nil
  then show ?case by simp
next
  case (Cons e effects)
  then obtain es where es: "mapThrow (sanitizeEffect h) effects = Some es"
    "\<forall>e \<in> set es. goodEffect e" by auto
  from Cons.prems obtain e' where "sanitizeEffect h e = Some e'" "goodEffect e'"
    using sanitizeEffect_ir [of e h] by auto
  with es show ?case by simp
qed

lemma applyEffects_good:
  assumes "getProp node ''effects'' = Arr effects" "effects \<noteq> []"
    "\<forall>e \<in> set effects. irEffect e"
  shows "\<exists>es. applyEffects h i node s = (Some (), setProp i ''effects'' (Arr es) s)
              \<and> (\<forall>e \<in> set es. goodEffect e)"
proof -
  obtain es where es: "mapThrow (sanitizeEffect h) effects = Some es"
    "\<forall>e \<in> set es. goodEffect e"
    using mapThrow_effects [OF assms(3)] by blast
  have "hasItems h (getProp node ''effects'')"
    using assms(1,2) by (simp add: hasItems_def jsGt_def)
  then have "applyEffects h i node s = (Some (), setProp i ''effects'' (Arr es) s)"
    using assms(1) es(1) by (simp add: applyEffects_def)
  with es(2) show ?thesis by blast
qed

lemma readProp_setProp:
  "i < length (nodes s) \<Longrightarrow> readProp (setProp i k v s) i k = v"
  by (simp add: readProp_def setProp_def)

text \<open>
  C9 (counterexample). The blur length is read with the pattern of the offsets, which
  allows a sign, and is stored as read: a clause with a negative third length yields an
  effect of negative radius.
\<close>

theorem C9_counterexample:
  "map eff_radius (parseBoxShadow ''1px 1px -5px'') = [Num (- 5)]"
  by code_simp

text \<open>
  C9 (amended). Every effect produced by \<open>parseBoxShadow\<close> has \<open>visible = true\<close> (its
  radius is the blur length as written). Every effect the Materializer builds from an IR
  effect whose color channels and radius are numbers, \<open>null\<close> or absent has
  \<open>visible = true\<close>, a radius that is a number not below 0 and color channels and alpha in
  the unit interval; \<open>applyEffects\<close> assigns exactly these effects to the target node.
\<close>

theorem C9_effects:
  "(\<forall>e \<in> set (parseBoxShadow str). eff_visible e)
   \<and> (irEffect effect \<longrightarrow> (\<exists>e. sanitizeEffect h effect = Some e \<and> goodEffect e))
   \<and> (getProp node ''effects'' = Arr effects \<and> effects \<noteq> [] \<and> (\<forall>e \<in> set effects. irEffect e)
        \<and> i < length (nodes s)
      \<longrightarrow> (\<exists>es s'. applyEffects h i node s = (Some (), s')
                   \<and> readProp s' i ''effects'' = Arr es \<and> (\<forall>e \<in> set es. goodEffect e)))"
proof (intro conjI impI ballI)
  fix e assume "e \<in> set (parseBoxShadow str)"
  then show "eff_visible e" by (rule parseBoxShadow_visible)
next
  assume "irEffect effect"
  then show "\<exists>e. sanitizeEffect h effect = Some e \<and> goodEffect e" by (rule sanitizeEffect_ir)
next
  assume a: "getProp node ''effects'' = Arr effects \<and> effects \<noteq> []
      \<and> (\<forall>e \<in> set effects. irEffect e) \<and> i < length (nodes s)"
  then obtain es where es: "applyEffects h i node s = (Some (), setProp i ''effects'' (Arr es) s)"
    "\<forall>e \<in> set es. goodEffect e"
    using applyEffects_good [of node effects h i s] by blast
  moreover have "readProp (setProp i ''effects'' (Arr es) s) i ''effects'' = Arr es"
    using a by (simp add: readProp_setProp)
  ultimately show "\<exists>es s'. applyEffects h i node s = (Some (), s')
                   \<and> readProp s' i ''effects'' = Arr es \<and> (\<forall>e \<in> set es. goodEffect e)"
    by blast
qed

lemma effect_examples:
  "sanitizeEffect plainHost exampleEffect = Some exampleEffectOut"
  "parseBoxShadow ''1px 1px -5px'' =
     [\<lparr> eff_type = DROP_SHADOW,
        eff_color = \<lparr> col_r = Num 0, col_g = Num 0, col_b = Num 0, col_a = Num (1 / 4) \<rparr>,
        eff_offset = \<lparr> pt_x = Num 1, pt_y = Num 1 \<rparr>,
        eff_radius = Num (- 5), eff_spread = Num 0, eff_visible = True \<rparr>]"
  "applyEffects plainHost 0 (Obj [(''effects'', Arr [exampleEffect])]) oneFrame =
     (Some (), setProp 0 ''effects'' (Arr [exampleEffectOut]) oneFrame)"
  by code_simp+

lemma exampleEffect_ir: "irEffect exampleEffect"
  by (simp add: irEffect_def exampleEffect_def irColor_def)

theorem C9_effects_witness:
  "irEffect exampleEffect \<and> goodEffect exampleEffectOut
   \<and> eff_visible (hd (parseBoxShadow ''1px 1px -5px''))
   \<and> readProp (snd (applyEffects plainHost 0 (Obj [(''effects'', Arr [exampleEffect])]) oneFrame))
        0 ''effects'' = Arr [exampleEffectOut]"
proof -
  note inst = C9_effects [of "''1px 1px -5px''" exampleEffect plainHost
      "Obj [(''effects'', Arr [exampleEffect])]" "[exampleEffect]" 0 oneFrame]
  have "goodEffect exampleEffectOut"
    using inst exampleEffect_ir effect_examples(1) by auto
  moreover have "eff_visible (hd (parseBoxShadow ''1px 1px -5px''))"
    using inst unfolding effect_examples(2) by simp
  moreover have "readProp (snd (applyEffects plainHost 0 (Obj [(''effects'', Arr [exampleEffect])]) oneFrame))
        0 ''effects'' = Arr [exampleEffectOut]"
    unfolding effect_examples(3) by (simp add: readProp_setProp oneFrame_def)
  ultimately show ?thesis using exampleEffect_ir by blast
qed

subsection \<open>The scene primitives\<close>

lemma nodes_setProp_length [simp]: "length (nodes (setProp i k v s)) = length (nodes s)"
  by (simp add: setProp_def)

lemma nodes_resize_length [simp]: "length (nodes (resize i w hgt s)) = length (nodes s)"
  by (simp add: resize_def)

lemma nodes_appendChild_length [simp]: "length (nodes (appendChild p c s)) = length (nodes s)"
  by (simp add: appendChild_def)

lemma nodes_notify [simp]: "nodes (notify n s) = nodes s"
  by (simp add: notify_def)

lemma nodes_sendProgress [simp]: "nodes (sendProgress m p s) = nodes s"
  by (simp add: sendProgress_def)

lemma nodes_countLayer [simp]: "nodes (countLayer s) = nodes s"
  by (simp add: countLayer_def Let_def)

lemma createNode_eq:
  "createNode k s = (i, s') \<longleftrightarrow>
     i = length (nodes s) \<and>
     s' = s\<lparr> nodes := nodes s @ [\<lparr> fn_kind = k, fn_props = [], fn_children = [],
                                     fn_parent = None \<rparr>] \<rparr>"
  by (auto simp: createNode_def)

lemma take_setProp [simp]: "n \<le> i \<Longrightarrow> take n (nodes (setProp i k v s)) = take n (nodes s)"
  by (simp add: setProp_def)

lemma take_resize [simp]: "n \<le> i \<Longrightarrow> take n (nodes (resize i w hgt s)) = take n (nodes s)"
  by (simp add: resize_def)

lemma take_appendChild [simp]:
  "n \<le> p \<Longrightarrow> n \<le> c \<Longrightarrow> take n (nodes (appendChild p c s)) = take n (nodes s)"
  by (simp add: appendChild_def)

lemma kind_setProp [simp]: "fn_kind (nodes (setProp i k v s) ! j) = fn_kind (nodes s ! j)"
  by (cases "i < length (nodes s)"; cases "i = j") (simp_all add: setProp_def list_update_beyond)

lemma kind_resize [simp]: "fn_kind (nodes (resize i w hgt s) ! j) = fn_kind (nodes s ! j)"
  by (simp add: resize_def)

lemma kind_appendChild [simp]: "fn_kind (nodes (appendChild p c s) ! j) = fn_kind (nodes s ! j)"
  by (cases "p < length (nodes s)"; cases "c < length (nodes s)"; cases "p = j"; cases "c = j")
     (simp_all add: appendChild_def list_update_beyond)

lemma children_setProp [simp]:
  "fn_children (nodes (setProp i k v s) ! j) = fn_children (nodes s ! j)"
  by (cases "i < length (nodes s)"; cases "i = j") (simp_all add: setProp_def list_update_beyond)

lemma children_resize [simp]:
  "fn_children (nodes (resize i w hgt s) ! j) = fn_children (nodes s ! j)"
  by (simp add: resize_def)

lemma parent_setProp [simp]:
  "fn_parent (nodes (setProp i k v s) ! j) = fn_parent (nodes s ! j)"
  by (cases "i < length (nodes s)"; cases "i = j") (simp_all add: setProp_def list_update_beyond)

lemma parent_resize [simp]:
  "fn_parent (nodes (resize i w hgt s) ! j) = fn_parent (nodes s ! j)"
  by (simp add: resize_def)

lemma readProp_setProp_same [simp]:
  "i < length (nodes s) \<Longrightarrow> readProp (setProp i k v s) i k = v"
  by (simp add: readProp_def setProp_def)

lemma readProp_setProp_key [simp]:
  "k \<noteq> k' \<Longrightarrow> readProp (setProp i k' v s) j k = readProp s j k"
  by (cases "i < length (nodes s)"; cases "i = j") (simp_all add: readProp_def setProp_def list_update_beyond)

lemma readProp_setProp_node [simp]:
  "i \<noteq> j \<Longrightarrow> readProp (setProp i k' v s) j k = readProp s j k"
  by (cases "i < length (nodes s)") (simp_all add: readProp_def setProp_def list_update_beyond)

lemma readProp_resize_key [simp]:
  "k \<noteq> ''width'' \<Longrightarrow> k \<noteq> ''height'' \<Longrightarrow> readProp (resize i w hgt s) j k = readProp s j k"
  by (simp add: resize_def)

lemma readProp_resize_node [simp]:
  "i \<noteq> j \<Longrightarrow> readProp (resize i w hgt s) j k = readProp s j k"
  by (simp add: resize_def)

lemma readProp_resize_size [simp]:
  "i < length (nodes s) \<Longrightarrow> readProp (resize i w hgt s) i ''width'' = w"
  "i < length (nodes s) \<Longrightarrow> readProp (resize i w hgt s) i ''height'' = hgt"
  by (simp_all add: resize_def)

lemma readProp_appendChild [simp]: "readProp (appendChild p c s) j k = readProp s j k"
  by (cases "p < length (nodes s)"; cases "c < length (nodes s)"; cases "p = j"; cases "c = j")
     (simp_all add: appendChild_def readProp_def list_update_beyond)

lemma readProp_cong_nodes: "nodes s' ! j = nodes s ! j \<Longrightarrow> readProp s' j k = readProp s j k"
  by (simp add: readProp_def)

lemma children_appendChild_parent:
  "p < length (nodes s) \<Longrightarrow> p \<noteq> c \<Longrightarrow>
   fn_children (nodes (appendChild p c s) ! p) = fn_children (nodes s ! p) @ [c]"
  by (cases "c < length (nodes s)") (simp_all add: appendChild_def list_update_beyond)

lemma parent_appendChild_child:
  "c < length (nodes s) \<Longrightarrow> fn_parent (nodes (appendChild p c s) ! c) = Some p"
  by (simp add: appendChild_def)

subsection \<open>Steps that assign properties of one node\<close>

lemma onlyProps_refl [simp]: "onlyProps i s s"
  by (simp add: onlyProps_def)

lemma onlyProps_trans: "onlyProps i s s1 \<Longrightarrow> onlyProps i s1 s2 \<Longrightarrow> onlyProps i s s2"
  by (simp add: onlyProps_def)

lemma onlyProps_setProp [simp]: "onlyProps i s (setProp i k v s)"
  by (simp add: onlyProps_def)

lemma onlyProps_setProp_after: "onlyProps i s s1 \<Longrightarrow> onlyProps i s (setProp i k v s1)"
  by (rule onlyProps_trans [OF _ onlyProps_setProp])

lemma onlyProps_resize [simp]: "onlyProps i s (resize i w hgt s)"
  by (simp add: onlyProps_def)

lemma onlyProps_applyStrokes:
  "applyStrokes h i node s = (r, s') \<Longrightarrow> onlyProps i s s'"
  by (auto simp: applyStrokes_def Let_def split: if_splits option.splits
      intro!: onlyProps_setProp_after)

lemma onlyProps_applyCornerRadius: "onlyProps i s (applyCornerRadius i node s)"
  by (auto simp: applyCornerRadius_def intro!: onlyProps_setProp_after)

lemma onlyProps_applyEffects:
  "applyEffects h i node s = (r, s') \<Longrightarrow> onlyProps i s s'"
  by (auto simp: applyEffects_def split: if_splits option.splits)

lemma onlyProps_styleText: "onlyProps i s (styleText i node s)"
  by (auto simp: styleText_def Let_def intro!: onlyProps_setProp_after)

lemma onlyProps_take: "onlyProps i s s' \<Longrightarrow> n \<le> i \<Longrightarrow> take n (nodes s') = take n (nodes s)"
  by (simp add: onlyProps_def)

lemma onlyProps_length: "onlyProps i s s' \<Longrightarrow> length (nodes s') = length (nodes s)"
  by (simp add: onlyProps_def)

lemma take_createNode:
  "createNode k s = (i, s1) \<Longrightarrow> n \<le> length (nodes s) \<Longrightarrow>
   take n (nodes s1) = take n (nodes s) \<and> i = length (nodes s) \<and> length (nodes s1) = Suc i
   \<and> fn_kind (nodes s1 ! i) = k \<and> fn_children (nodes s1 ! i) = []"
  by (auto simp: createNode_eq)

lemma builds_after_create:
  assumes "createNode k s = (i, s1)" "n \<le> length (nodes s)" "onlyProps i s1 s2"
  shows "builds n s (None, s2)" "builds n s (Some i, s2)"
  using take_createNode [OF assms(1,2)] onlyProps_take [OF assms(3), of n]
    onlyProps_length [OF assms(3)] assms(2)
  by (simp_all add: builds_def)

lemma createFrameNode_builds:
  assumes "n \<le> length (nodes s)"
  shows "builds n s (createFrameNode h node s)"
proof -
  obtain frame s1 where c: "createNode FRAME s = (frame, s1)" by (cases "createNode FRAME s")
  note b = builds_after_create [OF c assms]
  let ?s3 = "setProp frame ''clipsContent'' (jsOr (getProp node ''clipsContent'') (Bool False))
               (resize frame (sizeOf h node ''width'' 1) (sizeOf h node ''height'' 1) s1)"
  have s3: "onlyProps frame s1 ?s3"
    by (intro onlyProps_setProp_after onlyProps_resize)
  show ?thesis
  proof (cases "nullish node")
    case True
    then show ?thesis using c b(1) [of s1] by (simp add: createFrameNode_def)
  next
    case False
    show ?thesis
    proof (cases "if hasItems h (getProp node ''fills'')
                  then sanitizeFills h (getProp node ''fills'') else Some (Arr [])")
      case None
      then show ?thesis using c False b(1) [OF s3]
        by (simp add: createFrameNode_def Let_def)
    next
      case (Some fills)
      let ?s4 = "setProp frame ''fills'' fills ?s3"
      obtain r4 s5 where a: "applyStrokes h frame node ?s4 = (r4, s5)"
        by (cases "applyStrokes h frame node ?s4")
      obtain r5 s6 where e: "applyEffects h frame node (applyCornerRadius frame node s5) = (r5, s6)"
        by (cases "applyEffects h frame node (applyCornerRadius frame node s5)")
      have s5: "onlyProps frame s1 s5"
        using onlyProps_trans [OF onlyProps_setProp_after [OF s3] onlyProps_applyStrokes [OF a]] .
      have s6: "onlyProps frame s1 s6"
        using onlyProps_trans [OF onlyProps_trans [OF s5 onlyProps_applyCornerRadius]
            onlyProps_applyEffects [OF e]] .
      show ?thesis
        using c False Some a e b(1) [OF s5] b(1) [OF s6] b(2) [OF s6]
        by (cases r4; cases r5) (simp_all add: createFrameNode_def Let_def)
    qed
  qed
qed

lemma createWrapper_onlyProps:
  assumes c: "createNode FRAME s = (wrapper, s1)" and w: "createWrapper h node s = (r, s')"
  shows "onlyProps wrapper s1 s'" "r = None \<or> r = Some wrapper"
proof -
  let ?s4 = "setProp wrapper ''clipsContent'' (Bool False)
               (resize wrapper (sizeOf h node ''width'' 1) (sizeOf h node ''height'' 1)
                  (setProp wrapper ''name'' (jsOr (getProp node ''name'') (Str ''text-container'')) s1))"
  have s4: "onlyProps wrapper s1 ?s4"
    by (intro onlyProps_setProp_after onlyProps_trans [OF _ onlyProps_resize] onlyProps_setProp)
  have "onlyProps wrapper s1 s' \<and> (r = None \<or> r = Some wrapper)"
  proof (cases "if hasItems h (getProp node ''backgroundFills'')
                then sanitizeFills h (getProp node ''backgroundFills'') else Some (Arr [])")
    case None
    then show ?thesis using c w s4
      by (simp add: createWrapper_def Let_def)
  next
    case (Some fills)
    let ?s5 = "setProp wrapper ''fills'' fills ?s4"
    obtain r5 s5 where a: "applyStrokes h wrapper node ?s5 = (r5, s5)"
      by (cases "applyStrokes h wrapper node ?s5")
    obtain r6 s6 where e: "applyEffects h wrapper node (applyCornerRadius wrapper node s5) = (r6, s6)"
      by (cases "applyEffects h wrapper node (applyCornerRadius wrapper node s5)")
    have s5: "onlyProps wrapper s1 s5"
      using onlyProps_trans [OF onlyProps_setProp_after [OF s4] onlyProps_applyStrokes [OF a]] .
    have s6: "onlyProps wrapper s1 s6"
      using onlyProps_trans [OF onlyProps_trans [OF s5 onlyProps_applyCornerRadius]
          onlyProps_applyEffects [OF e]] .
    show ?thesis
      using c w Some a e s5 s6
      by (cases r5; cases r6) (auto simp: createWrapper_def Let_def)
  qed
  then show "onlyProps wrapper s1 s'" "r = None \<or> r = Some wrapper" by simp_all
qed

lemma createWrapper_builds:
  assumes "n \<le> length (nodes s)"
  shows "builds n s (createWrapper h node s)"
proof -
  obtain wrapper s1 where c: "createNode FRAME s = (wrapper, s1)" by (cases "createNode FRAME s")
  obtain r s' where w: "createWrapper h node s = (r, s')" by (cases "createWrapper h node s")
  show ?thesis
    using builds_after_create [OF c assms createWrapper_onlyProps(1) [OF c w]]
      createWrapper_onlyProps(2) [OF c w] w by auto
qed

lemma createTextPrimitive_onlyProps:
  assumes c: "createNode TEXT s = (textNode, s1)" and p: "createTextPrimitive h node s = (r, s')"
  shows "onlyProps textNode s1 s'" "r = None \<or> r = Some textNode"
proof -
  have "onlyProps textNode s1 s' \<and> (r = None \<or> r = Some textNode)"
  proof (cases "sanitizeFontFamily (getProp node ''fontFamily'')")
    case None
    then show ?thesis using c p by (simp add: createTextPrimitive_def)
  next
    case (Some fontFamily)
    show ?thesis
    proof (cases "resolveFont h fontFamily (jsOr (getProp node ''figmaFontStyle'') (Str ''Regular''))")
      case None
      then show ?thesis using c p Some by (simp add: createTextPrimitive_def)
    next
      case font: (Some font)
      let ?s2 = "styleText textNode node (setProp textNode ''fontName'' font s1)"
      have s2: "onlyProps textNode s1 ?s2"
        by (rule onlyProps_trans [OF onlyProps_setProp onlyProps_styleText])
      show ?thesis
      proof (cases "if hasItems h (getProp node ''fills'')
                    then map_option (\<lambda>f. setProp textNode ''fills'' f ?s2)
                           (sanitizeFills h (getProp node ''fills''))
                    else Some ?s2")
        case None
        then show ?thesis using c p Some font s2
          by (simp add: createTextPrimitive_def Let_def)
      next
        case s3: (Some s3)
        then have "onlyProps textNode s1 s3"
          using s2 by (auto split: if_splits intro: onlyProps_setProp_after)
        then have "onlyProps textNode s1
                     (setProp textNode ''textAutoResize'' (Str ''NONE'')
                        (resize textNode (sizeOf h node ''width'' 1) (sizeOf h node ''height'' 1) s3))"
          by (intro onlyProps_setProp_after onlyProps_trans [OF _ onlyProps_resize])
        then show ?thesis using c p Some font s3
          by (auto simp: createTextPrimitive_def Let_def)
      qed
    qed
  qed
  then show "onlyProps textNode s1 s'" "r = None \<or> r = Some textNode" by simp_all
qed

lemma createTextPrimitive_builds:
  assumes "n \<le> length (nodes s)"
  shows "builds n s (createTextPrimitive h node s)"
proof -
  obtain textNode s1 where c: "createNode TEXT s = (textNode, s1)" by (cases "createNode TEXT s")
  obtain r s' where p: "createTextPrimitive h node s = (r, s')"
    by (cases "createTextPrimitive h node s")
  show ?thesis
    using builds_after_create [OF c assms createTextPrimitive_onlyProps(1) [OF c p]]
      createTextPrimitive_onlyProps(2) [OF c p] p by auto
qed

lemma builds_trans:
  assumes "builds n s (Some f, s1)" "builds n s1 res"
  shows "length (nodes s) \<le> length (nodes (snd res))"
    "take n (nodes (snd res)) = take n (nodes s)"
  using assms by (simp_all add: builds_def)

lemma createTextNode_builds:
  assumes "n \<le> length (nodes s)"
  shows "builds n s (createTextNode h node s)"
proof (cases "nullish node")
  case True
  then show ?thesis by (simp add: createTextNode_def builds_def)
next
  case False
  show ?thesis
  proof (cases "needsWrapper h node")
    case False
    with \<open>\<not> nullish node\<close> show ?thesis
      using createTextPrimitive_builds [OF assms] by (simp add: createTextNode_def)
  next
    case True
    obtain r1 s1 where w: "createWrapper h node s = (r1, s1)" by (cases "createWrapper h node s")
    have bw: "builds n s (r1, s1)" using createWrapper_builds [OF assms, of h node] w by simp
    show ?thesis
    proof (cases r1)
      case None
      with w bw True \<open>\<not> nullish node\<close> show ?thesis by (simp add: createTextNode_def)
    next
      case (Some wrapper)
      obtain r2 s2 where t: "createTextPrimitive h node s1 = (r2, s2)"
        by (cases "createTextPrimitive h node s1")
      have n1: "n \<le> length (nodes s1)" using bw assms by (simp add: builds_def)
      have bt: "builds n s1 (r2, s2)" using createTextPrimitive_builds [OF n1, of h node] t by simp
      show ?thesis
      proof (cases r2)
        case None
        with w t Some True \<open>\<not> nullish node\<close> bw bt show ?thesis
          by (simp add: createTextNode_def builds_def)
      next
        case tn: (Some textNode)
        have "n \<le> wrapper" "n \<le> textNode" "wrapper < length (nodes s2)"
          using bw bt Some tn by (auto simp: builds_def)
        with w t Some tn True \<open>\<not> nullish node\<close> bw bt show ?thesis
          by (simp add: createTextNode_def builds_def)
      qed
    qed
  qed
qed

lemma createSvgNode_builds:
  assumes "n \<le> length (nodes s)"
  shows "builds n s (createSvgNode h node s)"
proof -
  obtain rect s1 where c: "createNode RECTANGLE s = (rect, s1)" by (cases "createNode RECTANGLE s")
  obtain svgNode s2 where d: "createNode SVGFRAME s = (svgNode, s2)" by (cases "createNode SVGFRAME s")
  note b = builds_after_create [OF c assms] builds_after_create [OF d assms]
  have 1: "builds n s (Some rect, setProp rect ''fills'' v
             (resize rect w hgt s1))" for v w hgt
    by (intro b onlyProps_setProp_after onlyProps_resize)
  have 2: "builds n s (Some rect, setProp rect ''name'' u (setProp rect ''fills'' v
             (resize rect w hgt s1)))" for u v w hgt
    by (intro b onlyProps_setProp_after onlyProps_resize)
  have 3: "builds n s (Some svgNode, resize svgNode w hgt s2)" "builds n s (Some svgNode, s2)"
    for w hgt
    by (intro b onlyProps_resize onlyProps_refl)+
  show ?thesis
    using c d 1 2 3 by (simp add: createSvgNode_def builds_def)
qed

lemma createImageNode_builds:
  assumes "n \<le> length (nodes s)"
  shows "builds n s (createImageNode h node s)"
proof -
  obtain rect s1 where c: "createNode RECTANGLE s = (rect, s1)" by (cases "createNode RECTANGLE s")
  note b = builds_after_create [OF c assms]
  have 0: "builds n s (None, s1)" by (intro b onlyProps_refl)
  have 1: "builds n s (Some rect, setProp rect ''fills'' v (resize rect w hgt s1))" for v w hgt
    by (intro b onlyProps_setProp_after onlyProps_resize)
  have 2: "builds n s (Some rect, setProp rect ''name'' u (setProp rect ''fills'' v
             (resize rect w hgt s1)))" for u v w hgt
    by (intro b onlyProps_setProp_after onlyProps_resize)
  show ?thesis
    using c 0 1 2 by (simp add: createImageNode_def Let_def)
qed

lemma createByType_builds:
  "n \<le> length (nodes s) \<Longrightarrow> builds n s (createByType h node s)"
  by (simp add: createByType_def createTextNode_builds createSvgNode_builds
      createImageNode_builds createFrameNode_builds)

subsection \<open>The nodes that exist before a node is processed\<close>

lemma oldKept_refl [simp]: "oldKept n s s"
  by (simp add: oldKept_def)

lemma oldKept_trans: "oldKept n s s1 \<Longrightarrow> oldKept n s1 s2 \<Longrightarrow> oldKept n s s2"
  by (auto simp: oldKept_def)

lemma oldKept_length: "oldKept n s s' \<Longrightarrow> length (nodes s) \<le> length (nodes s')"
  by (simp add: oldKept_def)

lemma builds_oldKept:
  assumes "builds n s res"
  shows "oldKept n s (snd res)"
proof -
  have "nodes (snd res) ! j = nodes s ! j" if "j < n" for j
    using assms that by (metis builds_def nth_take)
  then show ?thesis using assms by (simp add: oldKept_def builds_def readProp_def)
qed

lemma oldKept_countLayer [simp]: "oldKept n s (countLayer s)"
  by (simp add: oldKept_def readProp_def)

lemma oldKept_notify [simp]: "oldKept n s (notify x s)"
  by (simp add: oldKept_def readProp_def)

lemma oldKept_sendProgress [simp]: "oldKept n s (sendProgress m p s)"
  by (simp add: oldKept_def readProp_def)

lemma oldKept_placeNode: "n \<le> f \<Longrightarrow> oldKept n s (placeNode h node f parent s)"
  by (auto simp: oldKept_def placeNode_def Let_def)

lemma processNode_oldKept:
  "n \<le> length (nodes s) \<Longrightarrow> oldKept n s (snd (processNode h node parent s))"
  "n \<le> length (nodes s) \<Longrightarrow> oldKept n s (snd (processChildren h cs parent s))"
proof (induction h node parent s and h cs parent s arbitrary: and
    rule: processNode_processChildren.induct)
  case (1 h node parent s)
  show ?case
  proof (cases "truthy node")
    case False
    then show ?thesis by (simp add: processNode.simps)
  next
    case True
    obtain r s1 where c: "createByType h node (countLayer s) = (r, s1)"
      by (cases "createByType h node (countLayer s)")
    have b: "builds n (countLayer s) (r, s1)"
      using createByType_builds [of n "countLayer s" h node] "1.prems" c by simp
    have k1: "oldKept n s s1"
      using oldKept_trans [OF oldKept_countLayer builds_oldKept [OF b]] by simp
    show ?thesis
    proof (cases r)
      case None
      with True c k1 show ?thesis by (simp add: processNode.simps)
    next
      case (Some figmaNode)
      let ?s2 = "placeNode h node figmaNode parent s1"
      have "n \<le> figmaNode" using b Some by (simp add: builds_def)
      then have k2: "oldKept n s ?s2"
        using oldKept_trans [OF k1 oldKept_placeNode] by blast
      show ?thesis
      proof (cases "hasItems h (getProp node ''children'') \<and> hasAppendChild ?s2 figmaNode")
        case False
        with True c Some k2 show ?thesis by (auto simp: processNode.simps)
      next
        case go: True
        show ?thesis
        proof (cases "iterOf (getProp node ''children'')")
          case None
          with True c Some k2 go show ?thesis by (simp add: processNode.simps)
        next
          case cs: (Some cs)
          have "n \<le> length (nodes ?s2)"
            using "1.prems" oldKept_length [OF k2] by simp
          then have "oldKept n ?s2 (snd (processChildren h cs figmaNode ?s2))"
            using "1.IH" [of r s1 figmaNode cs] True c Some go cs by simp
          then have "oldKept n s (snd (processChildren h cs figmaNode ?s2))"
            by (rule oldKept_trans [OF k2])
          with True c Some go cs show ?thesis
            by (cases "processChildren h cs figmaNode ?s2")
               (auto simp: processNode.simps split: option.splits)
        qed
      qed
    qed
  qed
next
  case (2 h parent s)
  show ?case by simp
next
  case (3 h child cs parent s)
  obtain r s1 where p: "processNode h child parent s = (r, s1)"
    by (cases "processNode h child parent s")
  have k1: "oldKept n s s1" using "3.IH"(1) [OF "3.prems"] p by simp
  show ?case
  proof (cases r)
    case None
    with p k1 show ?thesis by simp
  next
    case (Some a)
    have "n \<le> length (nodes s1)" using "3.prems" oldKept_length [OF k1] by simp
    then have "oldKept n s1 (snd (processChildren h cs parent s1))"
      using "3.IH"(2) [OF p [symmetric] Some] by simp
    with p Some k1 show ?thesis by (auto intro: oldKept_trans)
  qed
qed

subsection \<open>The message handler\<close>

lemma readProp_nodes: "nodes s' = nodes s \<Longrightarrow> readProp s' j k = readProp s j k"
  by (simp add: readProp_def)

lemma importFailed_nodes [simp]: "nodes (importFailed s) = nodes s"
  by (simp add: importFailed_def)

lemma readProp_other_fields [simp]:
  "readProp (notify x s) j k = readProp s j k"
  "readProp (sendProgress m p s) j k = readProp s j k"
  "readProp (importFailed s) j k = readProp s j k"
  "readProp (s\<lparr> zoomedTo := z \<rparr>) j k = readProp s j k"
  by (simp_all add: readProp_def)

lemma importDesign_root:
  assumes "countNodes (getProp data ''rootNode'') = Some n"
  shows "length (nodes s) < length (nodes (importDesign h data s))"
    "fn_kind (nodes (importDesign h data s) ! length (nodes s)) = FRAME"
    "readProp (importDesign h data s) (length (nodes s)) ''width'' =
       jsOr (getProp data ''viewportWidth'') (num 1440)"
    "readProp (importDesign h data s) (length (nodes s)) ''height'' =
       jsOr (jsOr (getProp data ''fullHeight'') (getProp data ''viewportHeight'')) (num 900)"
proof -
  let ?root = "length (nodes s)"
  let ?W = "jsOr (getProp data ''viewportWidth'') (num 1440)"
  let ?H = "jsOr (jsOr (getProp data ''fullHeight'') (getProp data ''viewportHeight'')) (num 900)"
  obtain s1 where c: "createNode FRAME (s\<lparr> totalNodes := n, processedNodes := 0 \<rparr>) = (?root, s1)"
    by (simp add: createNode_def)
  then have s1: "length (nodes s1) = Suc ?root" "fn_kind (nodes s1 ! ?root) = FRAME"
    by (auto simp: createNode_eq)
  let ?s3 = "resize ?root ?W ?H
               (setProp ?root ''name'' (jsOr (getProp data ''pageTitle'') (Str ''Imported Web Page'')) s1)"
  have s3: "length (nodes ?s3) = Suc ?root" "fn_kind (nodes ?s3 ! ?root) = FRAME"
    "readProp ?s3 ?root ''width'' = ?W" "readProp ?s3 ?root ''height'' = ?H"
    using s1 by simp_all
  obtain r s4 where p: "processNode h (getProp data ''rootNode'') ?root ?s3 = (r, s4)"
    by (cases "processNode h (getProp data ''rootNode'') ?root ?s3")
  have "oldKept (Suc ?root) ?s3 s4"
    using processNode_oldKept(1) [of "Suc ?root" ?s3 h "getProp data ''rootNode''" ?root] s3(1) p
    by simp
  then have s4: "Suc ?root \<le> length (nodes s4)" "fn_kind (nodes s4 ! ?root) = FRAME"
    "readProp s4 ?root ''width'' = ?W" "readProp s4 ?root ''height'' = ?H"
    using s3 by (simp_all add: oldKept_def)
  have root: "length (nodes s) < length (nodes s4)" using s4(1) by simp
  show "length (nodes s) < length (nodes (importDesign h data s))"
    using assms c p s4(1) by (cases r) (simp_all add: importDesign_def Let_def)
  show "fn_kind (nodes (importDesign h data s) ! length (nodes s)) = FRAME"
    using assms c p s4(2) by (cases r) (simp_all add: importDesign_def Let_def)
  show "readProp (importDesign h data s) (length (nodes s)) ''width'' = ?W"
    using assms c p s4(3) by (cases r) (simp_all add: importDesign_def Let_def)
  show "readProp (importDesign h data s) (length (nodes s)) ''height'' = ?H"
    using assms c p s4(4) by (cases r) (simp_all add: importDesign_def Let_def)
qed

lemma onmessage_valid:
  assumes "\<not> nullish msg" "getProp msg ''type'' = Str ''import-design''"
    "truthy (getProp msg ''data'')" "truthy (getProp (getProp msg ''data'') ''rootNode'')"
  shows "onmessage h msg s =
           importDesign h (getProp msg ''data'')
             (sendProgress PStarting (Num 0) (notify StartingImport s))"
  using assms by (simp add: onmessage_def)

text \<open>
  C7 (counterexample). A document whose \<open>fullHeight\<close> (500) is below its
  \<open>viewportHeight\<close> (900): the root frame is 500 high, not 900.
\<close>

lemma page_counts:
  "countNodes (getProp shortPage ''rootNode'') = Some 1"
  "countNodes (getProp longPage ''rootNode'') = Some 1"
  by (simp_all add: countNodes.simps shortPage_def longPage_def)

lemma importMessage_fields:
  "getProp (importMessage data) ''data'' = data" "\<not> nullish (importMessage data)"
  "getProp (importMessage data) ''type'' = Str ''import-design''"
  by (simp_all add: importMessage_def nullish_def)

theorem C7_counterexample:
  "readProp (onmessage plainHost (importMessage shortPage) emptyScene) 0 ''height'' = num 500
   \<and> num 500 \<noteq> num (max 500 900)"
proof -
  have "onmessage plainHost (importMessage shortPage) emptyScene =
          importDesign plainHost shortPage
            (sendProgress PStarting (Num 0) (notify StartingImport emptyScene))"
    by (simp add: onmessage_valid importMessage_fields shortPage_def)
  then show ?thesis
    using importDesign_root(4) [OF page_counts(1),
        where s = "sendProgress PStarting (Num 0) (notify StartingImport emptyScene)"
          and h = plainHost]
    by (simp add: emptyScene_def shortPage_def jsOr_def)
qed

text \<open>
  C7 (amended). For every IR document that the Materializer accepts (the message is an
  import, the document and its root node are there, the node count does not fail), the
  root frame is the first node created; its width is \<open>viewportWidth || 1440\<close> and its
  height \<open>fullHeight || viewportHeight || 900\<close>, whether the import then completes or
  fails. When the three fields are numbers with \<open>viewportWidth\<close> nonzero and
  \<open>fullHeight \<ge> viewportHeight > 0\<close>, as in a document written by the Extractor, this is
  \<open>viewportWidth\<close> by \<open>max(fullHeight, viewportHeight)\<close>.
\<close>

theorem C7_root_size:
  "\<not> nullish msg \<and> getProp msg ''type'' = Str ''import-design''
   \<and> truthy (getProp msg ''data'') \<and> truthy (getProp (getProp msg ''data'') ''rootNode'')
   \<and> countNodes (getProp (getProp msg ''data'') ''rootNode'') \<noteq> None
   \<longrightarrow> length (nodes s) < length (nodes (onmessage h msg s))
       \<and> fn_kind (nodes (onmessage h msg s) ! length (nodes s)) = FRAME
       \<and> readProp (onmessage h msg s) (length (nodes s)) ''width'' =
           jsOr (getProp (getProp msg ''data'') ''viewportWidth'') (num 1440)
       \<and> readProp (onmessage h msg s) (length (nodes s)) ''height'' =
           jsOr (jsOr (getProp (getProp msg ''data'') ''fullHeight'')
                      (getProp (getProp msg ''data'') ''viewportHeight'')) (num 900)
       \<and> (getProp (getProp msg ''data'') ''viewportWidth'' = num w \<and> w \<noteq> 0
          \<and> getProp (getProp msg ''data'') ''fullHeight'' = num f
          \<and> getProp (getProp msg ''data'') ''viewportHeight'' = num v \<and> 0 < v \<and> v \<le> f
          \<longrightarrow> readProp (onmessage h msg s) (length (nodes s)) ''width'' = num w
              \<and> readProp (onmessage h msg s) (length (nodes s)) ''height'' = num (max f v))"
proof (intro impI)
  assume a: "\<not> nullish msg \<and> getProp msg ''type'' = Str ''import-design''
   \<and> truthy (getProp msg ''data'') \<and> truthy (getProp (getProp msg ''data'') ''rootNode'')
   \<and> countNodes (getProp (getProp msg ''data'') ''rootNode'') \<noteq> None"
  let ?data = "getProp msg ''data''"
  let ?s0 = "sendProgress PStarting (Num 0) (notify StartingImport s)"
  have o: "onmessage h msg s = importDesign h ?data ?s0"
    using a by (simp add: onmessage_valid)
  from a obtain n where n: "countNodes (getProp ?data ''rootNode'') = Some n" by auto
  have l: "length (nodes ?s0) = length (nodes s)" by simp
  note r = importDesign_root [OF n, where s = ?s0 and h = h, unfolded l, folded o]
  have m: "getProp ?data ''viewportWidth'' = num w \<and> w \<noteq> 0
          \<and> getProp ?data ''fullHeight'' = num f
          \<and> getProp ?data ''viewportHeight'' = num v \<and> 0 < v \<and> v \<le> f
          \<longrightarrow> jsOr (getProp ?data ''viewportWidth'') (num 1440) = num w
              \<and> jsOr (jsOr (getProp ?data ''fullHeight'') (getProp ?data ''viewportHeight''))
                   (num 900) = num (max f v)"
    by (auto simp: jsOr_def)
  show "length (nodes s) < length (nodes (onmessage h msg s))
       \<and> fn_kind (nodes (onmessage h msg s) ! length (nodes s)) = FRAME
       \<and> readProp (onmessage h msg s) (length (nodes s)) ''width'' =
           jsOr (getProp ?data ''viewportWidth'') (num 1440)
       \<and> readProp (onmessage h msg s) (length (nodes s)) ''height'' =
           jsOr (jsOr (getProp ?data ''fullHeight'') (getProp ?data ''viewportHeight'')) (num 900)
       \<and> (getProp ?data ''viewportWidth'' = num w \<and> w \<noteq> 0
          \<and> getProp ?data ''fullHeight'' = num f
          \<and> getProp ?data ''viewportHeight'' = num v \<and> 0 < v \<and> v \<le> f
          \<longrightarrow> readProp (onmessage h msg s) (length (nodes s)) ''width'' = num w
              \<and> readProp (onmessage h msg s) (length (nodes s)) ''height'' = num (max f v))"
    using r m by simp
qed

theorem C7_root_size_witness:
  "fn_kind (nodes (onmessage plainHost (importMessage longPage) emptyScene) ! 0) = FRAME
   \<and> readProp (onmessage plainHost (importMessage longPage) emptyScene) 0 ''width'' = num 1440
   \<and> readProp (onmessage plainHost (importMessage longPage) emptyScene) 0 ''height''
       = num (max 2000 900)"
proof -
  have p: "truthy longPage" "truthy (getProp longPage ''rootNode'')"
    "getProp longPage ''viewportWidth'' = num 1440" "getProp longPage ''fullHeight'' = num 2000"
    "getProp longPage ''viewportHeight'' = num 900"
    by (simp_all add: longPage_def)
  show ?thesis
    using C7_root_size [of "importMessage longPage" emptyScene plainHost 1440 2000 900]
      page_counts(2) p
    by (simp add: importMessage_fields emptyScene_def jsOr_def)
qed

text \<open>
  C8. On an import message whose document is missing, or whose root node is missing, the
  handler notifies the user once and returns: no node is created or modified, nothing
  else is sent.
\<close>

theorem C8_invalid_document:
  "\<not> nullish msg \<and> getProp msg ''type'' = Str ''import-design''
   \<and> (\<not> truthy (getProp msg ''data'') \<or> \<not> truthy (getProp (getProp msg ''data'') ''rootNode''))
   \<longrightarrow> onmessage h msg s = notify InvalidDesign s
       \<and> nodes (onmessage h msg s) = nodes s
       \<and> notices (onmessage h msg s) = notices s @ [InvalidDesign]
       \<and> progress (onmessage h msg s) = progress s
       \<and> zoomedTo (onmessage h msg s) = zoomedTo s"
  by (auto simp: onmessage_def notify_def)

theorem C8_invalid_document_witness:
  "onmessage plainHost (Obj [(''type'', Str ''import-design'')]) oneFrame
     = notify InvalidDesign oneFrame
   \<and> onmessage plainHost (importMessage Null) oneFrame = notify InvalidDesign oneFrame
   \<and> onmessage plainHost (importMessage (Obj [(''pageTitle'', Str ''Page'')])) oneFrame
     = notify InvalidDesign oneFrame
   \<and> nodes (onmessage plainHost (importMessage (Obj [(''pageTitle'', Str ''Page'')])) oneFrame)
     = nodes oneFrame"
  using C8_invalid_document [of "Obj [(''type'', Str ''import-design'')]" plainHost oneFrame]
    C8_invalid_document [of "importMessage Null" plainHost oneFrame]
    C8_invalid_document [of "importMessage (Obj [(''pageTitle'', Str ''Page'')])" plainHost oneFrame]
  by (simp add: importMessage_def nullish_def)

subsection \<open>Text nodes\<close>

lemma truthy_jsOr [simp]: "truthy (jsOr a b) = (truthy a \<or> truthy b)"
  by (simp add: jsOr_def)

lemma hasItems_Arr: "hasItems h (Arr xs) = (xs \<noteq> [])"
  by (simp add: hasItems_def jsGt_def)

lemma hasItems_list:
  assumes "listOrAbsent v"
  shows "hasItems h v = nonEmptyList v"
proof (cases "v = Undefined")
  case True
  then show ?thesis by (simp add: hasItems_def nonEmptyList_def)
next
  case False
  with assms obtain xs where "v = Arr xs" by (auto simp: listOrAbsent_def)
  then show ?thesis by (cases xs) (simp_all add: hasItems_Arr nonEmptyList_def)
qed

lemma nonZero_num: "nonZero (num x) = (x \<noteq> 0)"
  unfolding nonZero_def by blast

lemma nonZero_Undefined: "\<not> nonZero Undefined"
  unfolding nonZero_def by blast

lemma truthy_radius:
  assumes "numberOrAbsent v"
  shows "truthy v = nonZero v"
proof (cases "v = Undefined")
  case True
  then show ?thesis by (simp add: nonZero_Undefined)
next
  case False
  with assms obtain x where "v = num x" unfolding numberOrAbsent_def by blast
  then show ?thesis by (simp add: nonZero_num)
qed

lemma needsWrapper_ir:
  assumes "irTextNode node"
  shows "needsWrapper h node = carriesDecoration node"
proof -
  have l: "hasItems h (getProp node ''backgroundFills'') = nonEmptyList (getProp node ''backgroundFills'')"
    "hasItems h (getProp node ''strokes'') = nonEmptyList (getProp node ''strokes'')"
    "hasItems h (getProp node ''effects'') = nonEmptyList (getProp node ''effects'')"
    using assms by (simp_all add: irTextNode_def hasItems_list)
  have r: "truthy (getProp node ''topLeftRadius'') = nonZero (getProp node ''topLeftRadius'')"
    "truthy (getProp node ''topRightRadius'') = nonZero (getProp node ''topRightRadius'')"
    "truthy (getProp node ''bottomRightRadius'') = nonZero (getProp node ''bottomRightRadius'')"
    "truthy (getProp node ''bottomLeftRadius'') = nonZero (getProp node ''bottomLeftRadius'')"
    using assms by (simp_all add: irTextNode_def truthy_radius)
  show ?thesis
    unfolding needsWrapper_def carriesDecoration_def Let_def truthy_jsOr l r by blast
qed

lemma fills_applyStrokes:
  "applyStrokes h i node s = (r, s') \<Longrightarrow> readProp s' j ''fills'' = readProp s j ''fills''"
  by (auto simp: applyStrokes_def Let_def split: if_splits option.splits)

lemma fills_applyCornerRadius:
  "readProp (applyCornerRadius i node s) j ''fills'' = readProp s j ''fills''"
  by (simp add: applyCornerRadius_def)

lemma fills_applyEffects:
  "applyEffects h i node s = (r, s') \<Longrightarrow> readProp s' j ''fills'' = readProp s j ''fills''"
  by (auto simp: applyEffects_def split: if_splits option.splits)

lemma createWrapper_fills:
  assumes "createWrapper h node s = (Some wrapper, s')"
  shows "Some (readProp s' wrapper ''fills'') =
           (if hasItems h (getProp node ''backgroundFills'')
            then sanitizeFills h (getProp node ''backgroundFills'') else Some (Arr []))"
proof -
  obtain w s1 where c: "createNode FRAME s = (w, s1)" by (cases "createNode FRAME s")
  then have l: "w < length (nodes s1)" by (auto simp: createNode_eq)
  from createWrapper_onlyProps(2) [OF c assms] have w: "w = wrapper" by simp
  let ?s4 = "setProp w ''clipsContent'' (Bool False)
               (resize w (sizeOf h node ''width'' 1) (sizeOf h node ''height'' 1)
                  (setProp w ''name'' (jsOr (getProp node ''name'') (Str ''text-container'')) s1))"
  show ?thesis
  proof (cases "if hasItems h (getProp node ''backgroundFills'')
                then sanitizeFills h (getProp node ''backgroundFills'') else Some (Arr [])")
    case None
    then show ?thesis using c assms by (simp add: createWrapper_def Let_def)
  next
    case (Some fills)
    let ?s5 = "setProp w ''fills'' fills ?s4"
    obtain r5 s5 where a: "applyStrokes h w node ?s5 = (r5, s5)"
      by (cases "applyStrokes h w node ?s5")
    obtain r6 s6 where e: "applyEffects h w node (applyCornerRadius w node s5) = (r6, s6)"
      by (cases "applyEffects h w node (applyCornerRadius w node s5)")
    have "readProp ?s5 w ''fills'' = fills" using l by simp
    then have "readProp s6 w ''fills'' = fills"
      using fills_applyStrokes [OF a] fills_applyEffects [OF e] fills_applyCornerRadius by simp
    moreover have "s' = s6"
      using c assms Some a e by (cases r5; cases r6) (simp_all add: createWrapper_def Let_def)
    ultimately show ?thesis using Some w by simp
  qed
qed

lemma createTextNode_plain:
  assumes "\<not> nullish node" "createTextNode h node s = (Some r, s')" "\<not> needsWrapper h node"
  shows "r = length (nodes s) \<and> length (nodes s') = length (nodes s) + 1
         \<and> fn_kind (nodes s' ! r) = TEXT"
proof -
  obtain t s1 where c: "createNode TEXT s = (t, s1)" by (cases "createNode TEXT s")
  have p: "createTextPrimitive h node s = (Some r, s')"
    using assms by (simp add: createTextNode_def)
  have "r = t" "onlyProps t s1 s'"
    using createTextPrimitive_onlyProps [OF c p] by simp_all
  moreover have "t = length (nodes s)" "length (nodes s1) = Suc t" "fn_kind (nodes s1 ! t) = TEXT"
    using c by (auto simp: createNode_eq)
  ultimately show ?thesis by (simp add: onlyProps_def)
qed

lemma createTextNode_wrapped:
  assumes "\<not> nullish node" "createTextNode h node s = (Some r, s')" "needsWrapper h node"
  shows "r = length (nodes s) \<and> length (nodes s') = length (nodes s) + 2
         \<and> fn_kind (nodes s' ! r) = FRAME
         \<and> fn_children (nodes s' ! r) = [Suc r] \<and> fn_kind (nodes s' ! Suc r) = TEXT
         \<and> fn_parent (nodes s' ! Suc r) = Some r
         \<and> readProp s' (Suc r) ''x'' = num 0 \<and> readProp s' (Suc r) ''y'' = num 0
         \<and> Some (readProp s' r ''fills'') =
              (if hasItems h (getProp node ''backgroundFills'')
               then sanitizeFills h (getProp node ''backgroundFills'') else Some (Arr []))"
proof -
  obtain r1 s1 where w: "createWrapper h node s = (r1, s1)" by (cases "createWrapper h node s")
  obtain wrapper where r1: "r1 = Some wrapper"
    using assms w by (cases r1) (simp_all add: createTextNode_def)
  obtain r2 s2 where t: "createTextPrimitive h node s1 = (r2, s2)"
    by (cases "createTextPrimitive h node s1")
  obtain textNode where r2: "r2 = Some textNode"
    using assms w r1 t by (cases r2) (simp_all add: createTextNode_def)
  have res: "r = wrapper"
    "s' = appendChild wrapper textNode
            (setProp textNode ''y'' (num 0) (setProp textNode ''x'' (num 0) s2))"
    using assms w r1 t r2 by (auto simp: createTextNode_def)
  obtain w0 s0 where c0: "createNode FRAME s = (w0, s0)" by (cases "createNode FRAME s")
  have w0: "w0 = wrapper" "onlyProps wrapper s0 s1"
    using createWrapper_onlyProps [OF c0 w] r1 by simp_all
  have s0: "w0 = length (nodes s)" "length (nodes s0) = Suc w0"
    "fn_kind (nodes s0 ! w0) = FRAME" "fn_children (nodes s0 ! w0) = []"
    using c0 by (auto simp: createNode_eq)
  have s1: "wrapper = length (nodes s)" "length (nodes s1) = Suc wrapper"
    "fn_kind (nodes s1 ! wrapper) = FRAME" "fn_children (nodes s1 ! wrapper) = []"
    using s0 w0 by (simp_all add: onlyProps_def)
  obtain t1 s1' where c1: "createNode TEXT s1 = (t1, s1')" by (cases "createNode TEXT s1")
  have t1: "t1 = textNode" "onlyProps textNode s1' s2"
    using createTextPrimitive_onlyProps [OF c1 t] r2 by simp_all
  have s1': "t1 = length (nodes s1)" "length (nodes s1') = Suc t1"
    "fn_kind (nodes s1' ! t1) = TEXT" "take t1 (nodes s1') = nodes s1"
    using c1 by (auto simp: createNode_eq)
  have s2: "textNode = Suc wrapper" "length (nodes s2) = Suc (Suc wrapper)"
    "fn_kind (nodes s2 ! textNode) = TEXT"
    using s1' t1 s1(2) by (simp_all add: onlyProps_def)
  have "take textNode (nodes s2) = nodes s1"
    using t1 s1'(4) by (simp add: onlyProps_def)
  then have "take textNode (nodes s2) ! wrapper = nodes s1 ! wrapper" by simp
  then have old: "nodes s2 ! wrapper = nodes s1 ! wrapper" using s2(1) by simp
  have f: "Some (readProp s1 wrapper ''fills'') =
              (if hasItems h (getProp node ''backgroundFills'')
               then sanitizeFills h (getProp node ''backgroundFills'') else Some (Arr []))"
    using createWrapper_fills [of h node s wrapper s1] w r1 by simp
  have f2: "readProp s2 wrapper ''fills'' = readProp s1 wrapper ''fills''"
    using old by (simp add: readProp_def)
  have k: "fn_kind (nodes s2 ! wrapper) = FRAME" "fn_children (nodes s2 ! wrapper) = []"
    using old s1 by simp_all
  have "length (nodes s') = length (nodes s) + 2" unfolding res using s2(2) s1(1) by simp
  moreover have "fn_kind (nodes s' ! wrapper) = FRAME" unfolding res using k by simp
  moreover have "fn_children (nodes s' ! wrapper) = [textNode]"
    unfolding res using k(2) s2(1,2)
    by (simp add: children_appendChild_parent)
  moreover have "fn_kind (nodes s' ! textNode) = TEXT" unfolding res using s2(3) by simp
  moreover have "fn_parent (nodes s' ! textNode) = Some wrapper"
    unfolding res using s2(1,2) by (simp add: parent_appendChild_child)
  moreover have "readProp s' textNode ''x'' = num 0" "readProp s' textNode ''y'' = num 0"
    unfolding res using s2(1,2) by simp_all
  moreover have "readProp s' wrapper ''fills'' = readProp s1 wrapper ''fills''"
    unfolding res using f2 s2(1) by simp
  ultimately show ?thesis using f res(1) s1(1) s2(1) by simp
qed

lemma createTextNode_wrapper_iff:
  assumes "\<not> nullish node" "createTextNode h node s = (res, s')"
  shows "(\<exists>i. length (nodes s) \<le> i \<and> i < length (nodes s') \<and> fn_kind (nodes s' ! i) = FRAME)
         = needsWrapper h node"
proof (cases "needsWrapper h node")
  case False
  obtain t s1 where c: "createNode TEXT s = (t, s1)" by (cases "createNode TEXT s")
  have p: "createTextPrimitive h node s = (res, s')"
    using assms False by (simp add: createTextNode_def)
  have "onlyProps t s1 s'" using createTextPrimitive_onlyProps(1) [OF c p] .
  moreover have "t = length (nodes s)" "length (nodes s1) = Suc t" "fn_kind (nodes s1 ! t) = TEXT"
    using c by (auto simp: createNode_eq)
  ultimately have "length (nodes s') = Suc (length (nodes s))"
    "fn_kind (nodes s' ! length (nodes s)) = TEXT"
    by (simp_all add: onlyProps_def)
  then have "\<not> (\<exists>i. length (nodes s) \<le> i \<and> i < length (nodes s') \<and> fn_kind (nodes s' ! i) = FRAME)"
    by (auto simp: less_Suc_eq_le)
  with False show ?thesis by simp
next
  case True
  obtain w0 s0 where c0: "createNode FRAME s = (w0, s0)" by (cases "createNode FRAME s")
  obtain r1 s1 where w: "createWrapper h node s = (r1, s1)" by (cases "createWrapper h node s")
  have "onlyProps w0 s0 s1" using createWrapper_onlyProps(1) [OF c0 w] .
  moreover have "w0 = length (nodes s)" "length (nodes s0) = Suc w0" "fn_kind (nodes s0 ! w0) = FRAME"
    using c0 by (auto simp: createNode_eq)
  ultimately have s1: "length (nodes s1) = Suc (length (nodes s))"
    "fn_kind (nodes s1 ! length (nodes s)) = FRAME"
    by (simp_all add: onlyProps_def)
  have "length (nodes s) < length (nodes s') \<and> fn_kind (nodes s' ! length (nodes s)) = FRAME"
  proof (cases r1)
    case None
    then have "s' = s1" using assms True w by (simp add: createTextNode_def)
    with s1 show ?thesis by simp
  next
    case (Some wrapper)
    obtain r2 s2 where t: "createTextPrimitive h node s1 = (r2, s2)"
      by (cases "createTextPrimitive h node s1")
    have b: "builds (length (nodes s1)) s1 (r2, s2)"
      using createTextPrimitive_builds [of "length (nodes s1)" s1 h node] t by simp
    then have "take (length (nodes s1)) (nodes s2) ! length (nodes s) = nodes s1 ! length (nodes s)"
      by (simp add: builds_def)
    then have k: "fn_kind (nodes s2 ! length (nodes s)) = FRAME" "length (nodes s) < length (nodes s2)"
      using s1 b by (simp_all add: builds_def)
    show ?thesis
    proof (cases r2)
      case None
      then have "s' = s2" using assms True w Some t by (simp add: createTextNode_def)
      with k show ?thesis by simp
    next
      case tn: (Some textNode)
      then have "s' = appendChild wrapper textNode
              (setProp textNode ''y'' (num 0) (setProp textNode ''x'' (num 0) s2))"
        using assms True w Some t by (auto simp: createTextNode_def)
      with k show ?thesis by simp
    qed
  qed
  with True show ?thesis by auto
qed

lemma irTextNode_not_nullish: "irTextNode node \<Longrightarrow> \<not> nullish node"
  by (auto simp: irTextNode_def nullish_def)

text \<open>
  C6. For a TEXT node of the IR, \<open>createTextNode\<close> creates a wrapping frame exactly when
  the node carries decoration. When it returns with a wrapper, the node returned is that
  frame; it has the sanitized background fills (the empty list when there are none), and
  one child, the text primitive, created after it and placed at (0, 0). When no wrapper is
  needed, the only node created is the text primitive, which is returned.
\<close>

theorem C6_text_wrapper:
  "irTextNode node \<and> createTextNode h node s = (res, s') \<longrightarrow>
     ((\<exists>i. length (nodes s) \<le> i \<and> i < length (nodes s') \<and> fn_kind (nodes s' ! i) = FRAME)
        = carriesDecoration node)
     \<and> (\<forall>r. res = Some r \<longrightarrow>
          r = length (nodes s) \<and>
          (if carriesDecoration node then
             length (nodes s') = length (nodes s) + 2 \<and> fn_kind (nodes s' ! r) = FRAME
             \<and> fn_children (nodes s' ! r) = [Suc r] \<and> fn_kind (nodes s' ! Suc r) = TEXT
             \<and> fn_parent (nodes s' ! Suc r) = Some r
             \<and> readProp s' (Suc r) ''x'' = num 0 \<and> readProp s' (Suc r) ''y'' = num 0
             \<and> Some (readProp s' r ''fills'') =
                  (if nonEmptyList (getProp node ''backgroundFills'')
                   then sanitizeFills h (getProp node ''backgroundFills'') else Some (Arr []))
           else length (nodes s') = length (nodes s) + 1 \<and> fn_kind (nodes s' ! r) = TEXT))"
proof
  assume a: "irTextNode node \<and> createTextNode h node s = (res, s')"
  then have nn: "\<not> nullish node" and nw: "needsWrapper h node = carriesDecoration node"
    and bg: "hasItems h (getProp node ''backgroundFills'') = nonEmptyList (getProp node ''backgroundFills'')"
    by (simp_all add: irTextNode_not_nullish needsWrapper_ir hasItems_list irTextNode_def)
  have 1: "(\<exists>i. length (nodes s) \<le> i \<and> i < length (nodes s') \<and> fn_kind (nodes s' ! i) = FRAME)
        = carriesDecoration node"
    using createTextNode_wrapper_iff [OF nn, of h s res s'] a nw by simp
  have 2: "r = length (nodes s) \<and>
          (if carriesDecoration node then
             length (nodes s') = length (nodes s) + 2 \<and> fn_kind (nodes s' ! r) = FRAME
             \<and> fn_children (nodes s' ! r) = [Suc r] \<and> fn_kind (nodes s' ! Suc r) = TEXT
             \<and> fn_parent (nodes s' ! Suc r) = Some r
             \<and> readProp s' (Suc r) ''x'' = num 0 \<and> readProp s' (Suc r) ''y'' = num 0
             \<and> Some (readProp s' r ''fills'') =
                  (if nonEmptyList (getProp node ''backgroundFills'')
                   then sanitizeFills h (getProp node ''backgroundFills'') else Some (Arr []))
           else length (nodes s') = length (nodes s) + 1 \<and> fn_kind (nodes s' ! r) = TEXT)"
    if r: "res = Some r" for r
  proof (cases "carriesDecoration node")
    case True
    have "createTextNode h node s = (Some r, s')" "needsWrapper h node"
      using a r nw True by simp_all
    from createTextNode_wrapped [OF nn this, unfolded bg]
    show ?thesis unfolding if_P [OF True] .
  next
    case False
    have "createTextNode h node s = (Some r, s')" "\<not> needsWrapper h node"
      using a r nw False by simp_all
    from createTextNode_plain [OF nn this]
    show ?thesis unfolding if_not_P [OF False] .
  qed
  from 1 2 show "((\<exists>i. length (nodes s) \<le> i \<and> i < length (nodes s') \<and> fn_kind (nodes s' ! i) = FRAME)
        = carriesDecoration node)
     \<and> (\<forall>r. res = Some r \<longrightarrow>
          r = length (nodes s) \<and>
          (if carriesDecoration node then
             length (nodes s') = length (nodes s) + 2 \<and> fn_kind (nodes s' ! r) = FRAME
             \<and> fn_children (nodes s' ! r) = [Suc r] \<and> fn_kind (nodes s' ! Suc r) = TEXT
             \<and> fn_parent (nodes s' ! Suc r) = Some r
             \<and> readProp s' (Suc r) ''x'' = num 0 \<and> readProp s' (Suc r) ''y'' = num 0
             \<and> Some (readProp s' r ''fills'') =
                  (if nonEmptyList (getProp node ''backgroundFills'')
                   then sanitizeFills h (getProp node ''backgroundFills'') else Some (Arr []))
           else length (nodes s') = length (nodes s) + 1 \<and> fn_kind (nodes s' ! r) = TEXT))"
    by blast
qed


lemma text_examples:
  "fst (createTextNode plainHost badgeText emptyScene) = Some 0"
  "fst (createTextNode plainHost plainText emptyScene) = Some 0"
  by (simp_all add: createTextNode_def needsWrapper_def hasItems_def jsGt_def createWrapper_def
      createTextPrimitive_def createNode_def Let_def badgeText_def plainText_def emptyScene_def
      plainHost_def nullish_def sanitizeFills_def isArray_def sanitizeFill_def applyStrokes_def
      applyEffects_def sanitizeFontFamily_def resolveFont_def fontOf_def exampleSolid_def
      solidOut_def)

lemma text_examples_fills:
  "sanitizeFills plainHost (getProp badgeText ''backgroundFills'') =
     Some (Arr [solidOut (num 0) (num 0) (num 1) (num 1)])"
  by code_simp

lemma text_examples_ir:
  "irTextNode badgeText" "irTextNode plainText" "carriesDecoration badgeText"
  "\<not> carriesDecoration plainText" "nonEmptyList (getProp badgeText ''backgroundFills'')"
  by (simp_all add: irTextNode_def badgeText_def plainText_def carriesDecoration_def
      listOrAbsent_def numberOrAbsent_def nonEmptyList_def nonZero_def)

lemma text_examples_run:
  "createTextNode plainHost badgeText emptyScene
     = (Some 0, snd (createTextNode plainHost badgeText emptyScene))"
  "createTextNode plainHost plainText emptyScene
     = (Some 0, snd (createTextNode plainHost plainText emptyScene))"
  using text_examples(1,2) by (simp_all add: prod_eq_iff)

theorem C6_text_wrapper_witness:
  "irTextNode badgeText \<and> carriesDecoration badgeText
   \<and> fn_kind (nodes (snd (createTextNode plainHost badgeText emptyScene)) ! 0) = FRAME
   \<and> fn_children (nodes (snd (createTextNode plainHost badgeText emptyScene)) ! 0) = [1]
   \<and> fn_kind (nodes (snd (createTextNode plainHost badgeText emptyScene)) ! 1) = TEXT
   \<and> readProp (snd (createTextNode plainHost badgeText emptyScene)) 1 ''x'' = num 0
   \<and> readProp (snd (createTextNode plainHost badgeText emptyScene)) 1 ''y'' = num 0
   \<and> readProp (snd (createTextNode plainHost badgeText emptyScene)) 0 ''fills''
       = Arr [solidOut (num 0) (num 0) (num 1) (num 1)]
   \<and> irTextNode plainText \<and> \<not> carriesDecoration plainText
   \<and> length (nodes (snd (createTextNode plainHost plainText emptyScene))) = 1
   \<and> fn_kind (nodes (snd (createTextNode plainHost plainText emptyScene)) ! 0) = TEXT"
proof -
  note a = C6_text_wrapper [of badgeText plainHost emptyScene "Some 0"
      "snd (createTextNode plainHost badgeText emptyScene)"]
  note b = C6_text_wrapper [of plainText plainHost emptyScene "Some 0"
      "snd (createTextNode plainHost plainText emptyScene)"]
  have e: "length (nodes emptyScene) = 0" by (simp add: emptyScene_def)
  show ?thesis
    using a b text_examples_ir text_examples_run text_examples_fills e
    by simp
qed

end
